theory Spec2Isabelle
  imports Complex_Main "HOL-Library.Multiset"
begin

section \<open>Conventions\<close>

text \<open>
  The pipeline is a straight-line pandas script. Every table (DataFrame) is a list of
  rows in row order; a nullable numeric column holds \<open>rat option\<close>, with \<open>None\<close> for
  NaN. Numbers are exact rationals: the development is about which rows are kept and
  which sums and quotients are formed, not about binary rounding. The infinities of
  float64 bear on one property of the health columns and have a section of their own.
  A Python exception is a value \<open>Inl e\<close> of a sum type.
\<close>

datatype error = ValueError

section \<open>Microdata (fixed-width person records)\<close>

text \<open>One row of \<open>df_ipums\<close>, with the eleven columns of \<open>column_names\<close>. A blank
  field is read as NaN.\<close>

record person =
  YEAR :: "int option"
  SAMPLE :: "int option"
  SERIAL :: "int option"
  STATEFIP :: "int option"
  COUNTYFIP :: "int option"
  GQ :: "int option"
  PERNUM :: "int option"
  PERWT :: "rat option"
  HCOVANY :: "int option"
  EDUC :: "int option"
  EDUCD :: "int option"

text \<open>\<open>Series.isin\<close>: NaN is in no list of integers.\<close>

definition isin :: "int option \<Rightarrow> int list \<Rightarrow> bool" where
  "isin v vs = (case v of None \<Rightarrow> False | Some x \<Rightarrow> x \<in> set vs)"

text \<open>\<open>df_ipums[df_ipums['GQ'].isin([1, 2, 5])]\<close>\<close>

definition gq_filter :: "person list \<Rightarrow> person list" where
  "gq_filter df = filter (\<lambda>p. isin (GQ p) [1, 2, 5]) df"

text \<open>\<open>groupby\<close>: the group keys are the distinct non-null key values in ascending
  order (rows with a NaN key belong to no group); a group keeps its rows in row order.\<close>

definition group_keys :: "('a \<Rightarrow> int option) \<Rightarrow> 'a list \<Rightarrow> int list" where
  "group_keys key df = sort (remdups (List.map_filter key df))"

definition get_group :: "('a \<Rightarrow> int option) \<Rightarrow> 'a list \<Rightarrow> int \<Rightarrow> 'a list" where
  "get_group key df k = filter (\<lambda>r. key r = Some k) df"

text \<open>\<open>Series.sum\<close> and \<open>Series.mean\<close> skip NaN; the mean of no value is NaN.\<close>

definition col_sum :: "rat option list \<Rightarrow> rat" where
  "col_sum col = sum_list (List.map_filter id col)"

definition mean :: "rat option list \<Rightarrow> rat option" where
  "mean col =
     (let xs = List.map_filter id col
      in if xs = [] then None else Some (sum_list xs / of_nat (length xs)))"

text \<open>\<open>pd.merge(left, right, on='STATEFIP', how='inner')\<close>: every pair of rows with
  equal keys, in the order of the left rows.\<close>

definition merge_inner :: "(int \<times> 'a) list \<Rightarrow> (int \<times> 'b) list \<Rightarrow> (int \<times> 'a \<times> 'b) list" where
  "merge_inner left right =
     concat (map (\<lambda>(k, a). map (\<lambda>(k', b). (k, a, b)) (filter (\<lambda>(k', b). k' = k) right)) left)"

text \<open>\<open>how='left'\<close>: every left row is kept; a left row with no partner gets NaN in
  the right-hand column.\<close>

definition merge_left ::
  "(int \<times> 'a) list \<Rightarrow> (int \<times> 'b option) list \<Rightarrow> (int \<times> 'a \<times> 'b option) list" where
  "merge_left left right =
     concat (map (\<lambda>(k, a).
        (let ms = filter (\<lambda>(k', b). k' = k) right
         in if ms = [] then [(k, a, None)] else map (\<lambda>(k', b). (k, a, b)) ms)) left)"

text \<open>\<open>edu = df_ipums.groupby('STATEFIP')['EDUC'].mean()\<close>\<close>

definition edu :: "person list \<Rightarrow> (int \<times> rat option) list" where
  "edu df =
     map (\<lambda>k. (k, mean (map (\<lambda>p. map_option of_int (EDUC p)) (get_group STATEFIP df k))))
       (group_keys STATEFIP df)"

text \<open>\<open>ins = df_ipums.groupby('STATEFIP')['HCOVANY'].apply(lambda x: (x == 2).mean())\<close>:
  the comparison gives a Boolean for every row (False on NaN), averaged as 1 and 0.\<close>

definition ins :: "person list \<Rightarrow> (int \<times> rat option) list" where
  "ins df =
     map (\<lambda>k. (k, mean (map (\<lambda>p. Some (if HCOVANY p = Some 2 then 1 else 0))
                          (get_group STATEFIP df k))))
       (group_keys STATEFIP df)"

text \<open>Rows of \<open>ipums_summary\<close> are \<open>(STATEFIP, (education, insured_rate))\<close>.\<close>

type_synonym summary_row = "int \<times> (rat option \<times> rat option)"

definition ipums_summary :: "person list \<Rightarrow> summary_row list" where
  "ipums_summary df_ipums =
     (let df = gq_filter df_ipums in merge_inner (edu df) (ins df))"

section \<open>County health table\<close>

text \<open>A cell of the column \<open>'5-digit FIPS Code'\<close> as \<open>read_csv\<close> delivers it: an
  integer when the whole column parsed as integers, the text of the field otherwise.
  The file is decoded as ISO-8859-1, so a character is one byte and \<open>char\<close> is its
  code point.\<close>

datatype cell = IntCell int | StrCell string

definition digit_char :: "nat \<Rightarrow> char" where
  "digit_char d = ''0123456789'' ! d"

fun str_nat :: "nat \<Rightarrow> string" where
  "str_nat n = (if n < 10 then [digit_char n] else str_nat (n div 10) @ [digit_char (n mod 10)])"

declare str_nat.simps [simp del]

text \<open>\<open>astype(str)\<close>\<close>

fun astype_str :: "cell \<Rightarrow> string" where
  "astype_str (StrCell s) = s"
| "astype_str (IntCell i) = (if i < 0 then CHR ''-'' # str_nat (nat (- i)) else str_nat (nat i))"

text \<open>\<open>str.zfill(width)\<close>: zeros are put on the left, after a leading sign.\<close>

definition zfill :: "nat \<Rightarrow> string \<Rightarrow> string" where
  "zfill width s =
     (if width \<le> length s then s
      else (case s of
              [] \<Rightarrow> replicate width CHR ''0''
            | c # cs \<Rightarrow>
                if c = CHR ''+'' \<or> c = CHR ''-''
                then c # replicate (width - length s) CHR ''0'' @ cs
                else replicate (width - length s) CHR ''0'' @ s))"

text \<open>\<open>str.isnumeric()\<close> holds for a non-empty string all of whose characters have a
  Unicode numeric value. Below U+0100 these are the ten decimal digits, the superscripts
  U+00B2, U+00B3, U+00B9 and the fractions U+00BC, U+00BD, U+00BE.\<close>

definition is_decimal :: "char \<Rightarrow> bool" where
  "is_decimal c = (48 \<le> (of_char c :: nat) \<and> (of_char c :: nat) \<le> 57)"

definition isnumeric_char :: "char \<Rightarrow> bool" where
  "isnumeric_char c = (is_decimal c \<or> (of_char c :: nat) \<in> {178, 179, 185, 188, 189, 190})"

definition isnumeric :: "string \<Rightarrow> bool" where
  "isnumeric s = (s \<noteq> [] \<and> list_all isnumeric_char s)"

text \<open>\<open>astype(int)\<close> on a string calls \<open>int()\<close>. On the strings that reach it (they
  passed \<open>isnumeric\<close>, so they hold no sign, blank or underscore) \<open>int()\<close> succeeds
  exactly when every character is a decimal digit, and raises ValueError otherwise.\<close>

definition digit_val :: "char \<Rightarrow> nat" where
  "digit_val c = of_char c - 48"

definition astype_int :: "string \<Rightarrow> error + int" where
  "astype_int s =
     (if s \<noteq> [] \<and> list_all is_decimal s
      then Inr (int (foldl (\<lambda>a c. 10 * a + digit_val c) 0 s))
      else Inl ValueError)"

text \<open>One row of \<open>df_health\<close>: the FIPS cell and the two columns made by
  \<open>pd.to_numeric(..., errors='coerce')\<close> (NaN where the raw field is no number). The
  validation of the key does not look at the two values, so their type is a parameter
  of the row. In a \<open>county\<close> the values are finite numbers or NaN.\<close>

record 'v health_row =
  fips_code :: cell
  homicides :: 'v
  population :: 'v

type_synonym county = "rat option health_row"

text \<open>\<open>df_health['FIPS'] = df_health['5-digit FIPS Code'].astype(str).str.zfill(5)\<close>\<close>

definition FIPS :: "'v health_row \<Rightarrow> string" where
  "FIPS r = zfill 5 (astype_str (fips_code r))"

text \<open>The two filters on the length and on \<open>isnumeric\<close>.\<close>

definition fips_filter :: "'v health_row list \<Rightarrow> 'v health_row list" where
  "fips_filter df = filter (\<lambda>r. isnumeric (FIPS r)) (filter (\<lambda>r. length (FIPS r) = 5) df)"

text \<open>\<open>df_health['STATEFIP'] = df_health['FIPS'].str[:2].astype(int)\<close>: the conversion
  of the whole column fails when one row fails. Rows become \<open>(STATEFIP, row)\<close>.\<close>

fun add_statefip :: "'v health_row list \<Rightarrow> error + (int \<times> 'v health_row) list" where
  "add_statefip [] = Inr []"
| "add_statefip (r # rs) =
     (case astype_int (take 2 (FIPS r)) of
        Inl e \<Rightarrow> Inl e
      | Inr k \<Rightarrow> (case add_statefip rs of
                    Inl e \<Rightarrow> Inl e
                  | Inr out \<Rightarrow> Inr ((k, r) # out)))"

text \<open>The county rate column \<open>homicide_rate_per_100k\<close> (\<open>np.where\<close>).\<close>

definition homicide_rate_per_100k :: "county \<Rightarrow> rat option" where
  "homicide_rate_per_100k r =
     (case (population r, homicides r) of
        (Some p, Some h) \<Rightarrow> if p > 0 then Some (h / p * 100000) else None
      | _ \<Rightarrow> None)"

text \<open>\<open>dropna(subset=['homicides', 'population'])\<close>, then \<open>population > 0\<close>.\<close>

definition df_health_clean :: "(int \<times> county) list \<Rightarrow> (int \<times> county) list" where
  "df_health_clean df =
     filter (\<lambda>(k, r). case population r of None \<Rightarrow> False | Some p \<Rightarrow> p > 0)
       (filter (\<lambda>(k, r). homicides r \<noteq> None \<and> population r \<noteq> None) df)"

text \<open>Float division of two columns of finite values. A zero divisor gives NaN for 0/0
  and an infinity otherwise; only the former is a value of this model, and the divisor
  of the pipeline is shown below never to be zero. The infinities are values of the
  second model of the two columns, further down.\<close>

definition fdiv :: "rat \<Rightarrow> rat \<Rightarrow> rat option" where
  "fdiv a b = (if b = 0 then None else Some (a / b))"

text \<open>\<open>groupby('STATEFIP').agg({'homicides': 'sum', 'population': 'sum'})\<close> followed by
  \<open>homicides / population * 100000\<close>; the result keeps \<open>STATEFIP\<close> and \<open>homicides\<close>.\<close>

definition state_homicide :: "(int \<times> county) list \<Rightarrow> (int \<times> rat option) list" where
  "state_homicide df =
     map (\<lambda>k. let g = get_group (Some \<circ> fst) df k
              in (k, map_option (\<lambda>q. q * 100000)
                       (fdiv (col_sum (map (homicides \<circ> snd) g))
                             (col_sum (map (population \<circ> snd) g)))))
       (group_keys (Some \<circ> fst) df)"

definition homicide :: "county list \<Rightarrow> error + (int \<times> rat option) list" where
  "homicide df_health =
     (case add_statefip (fips_filter df_health) of
        Inl e \<Rightarrow> Inl e
      | Inr df \<Rightarrow> Inr (state_homicide (df_health_clean df)))"

section \<open>Joining the two state tables\<close>

text \<open>Rows of \<open>combined\<close> are \<open>(STATEFIP, (education, insured_rate), homicides)\<close>.
  The column \<open>homicides\<close> is always present, so the test of the fallback is
  \<open>combined['homicides'].isna().all()\<close>, which holds of a table with no row.\<close>

type_synonym combined_row = "int \<times> (rat option \<times> rat option) \<times> rat option"

definition combined :: "summary_row list \<Rightarrow> (int \<times> rat option) list \<Rightarrow> combined_row list" where
  "combined ipums hom =
     (let c = merge_inner ipums hom
      in if list_all (\<lambda>(k, ei, h). h = None) c then merge_left ipums hom else c)"

section \<open>Formatting the summary table\<close>

definition state_names_table :: "(int \<times> string) list" where
  "state_names_table =
    [(1, ''Alabama''), (2, ''Alaska''), (4, ''Arizona''), (5, ''Arkansas''),
     (6, ''California''), (8, ''Colorado''), (9, ''Connecticut''), (10, ''Delaware''),
     (11, ''District of Columbia''), (12, ''Florida''), (13, ''Georgia''),
     (15, ''Hawaii''), (16, ''Idaho''), (17, ''Illinois''), (18, ''Indiana''),
     (19, ''Iowa''), (20, ''Kansas''), (21, ''Kentucky''), (22, ''Louisiana''),
     (23, ''Maine''), (24, ''Maryland''), (25, ''Massachusetts''), (26, ''Michigan''),
     (27, ''Minnesota''), (28, ''Mississippi''), (29, ''Missouri''), (30, ''Montana''),
     (31, ''Nebraska''), (32, ''Nevada''), (33, ''New Hampshire''), (34, ''New Jersey''),
     (35, ''New Mexico''), (36, ''New York''), (37, ''North Carolina''),
     (38, ''North Dakota''), (39, ''Ohio''), (40, ''Oklahoma''), (41, ''Oregon''),
     (42, ''Pennsylvania''), (44, ''Rhode Island''), (45, ''South Carolina''),
     (46, ''South Dakota''), (47, ''Tennessee''), (48, ''Texas''), (49, ''Utah''),
     (50, ''Vermont''), (51, ''Virginia''), (53, ''Washington''), (54, ''West Virginia''),
     (55, ''Wisconsin''), (56, ''Wyoming'')]"

text \<open>\<open>Series.map(state_names)\<close>: a code that is no key of the dictionary gives NaN.\<close>

definition state_names :: "int \<Rightarrow> string option" where
  "state_names = map_of state_names_table"

definition display_cols :: "string list" where
  "display_cols = [''state'', ''education'', ''insured_rate'', ''homicides'']"

text \<open>Rows of \<open>combined[display_cols]\<close> are \<open>(state, education, insured_rate, homicides)\<close>.\<close>

type_synonym display_row = "string option \<times> rat option \<times> rat option \<times> rat option"

definition select_display :: "combined_row list \<Rightarrow> display_row list" where
  "select_display c = map (\<lambda>(k, (e, i), h). (state_names k, e, i, h)) c"

definition education :: "display_row \<Rightarrow> rat option" where
  "education r = fst (snd r)"

text \<open>\<open>sort_values('education', ascending=False)\<close> is a call into the library with its
  default algorithm (\<open>kind='quicksort'\<close>), which the library documents as not stable.
  The sorter is therefore a parameter of the pipeline, and \<open>sort_values_ok\<close> is what the
  library promises of it: the rows are permuted, the keys descend, NaN keys come last.\<close>

definition edu_ge :: "rat option \<Rightarrow> rat option \<Rightarrow> bool" where
  "edu_ge a b =
     (case b of None \<Rightarrow> True
      | Some y \<Rightarrow> (case a of None \<Rightarrow> False | Some x \<Rightarrow> y \<le> x))"

definition sort_values_ok :: "(display_row list \<Rightarrow> display_row list) \<Rightarrow> bool" where
  "sort_values_ok srt =
     (\<forall>rows. mset (srt rows) = mset rows \<and> sorted_wrt edu_ge (map education (srt rows)))"

text \<open>A sorter that keeps this promise, for the sample runs: an insertion sort.\<close>

fun insert_keep :: "display_row \<Rightarrow> display_row list \<Rightarrow> display_row list" where
  "insert_keep r [] = [r]"
| "insert_keep r (x # xs) =
     (if edu_ge (education r) (education x) then r # x # xs else x # insert_keep r xs)"

definition sort_keep :: "display_row list \<Rightarrow> display_row list" where
  "sort_keep rows = foldr insert_keep rows []"

text \<open>\<open>DataFrame.round(4)\<close>: scale, round half to even, scale back; the text column
  \<open>state\<close> is left alone.\<close>

definition rint :: "rat \<Rightarrow> int" where
  "rint x =
     (let f = \<lfloor>x\<rfloor>; d = x - of_int f
      in if d < 1 / 2 then f else if 1 / 2 < d then f + 1 else if even f then f else f + 1)"

definition round4 :: "rat \<Rightarrow> rat" where
  "round4 x = of_int (rint (x * 10000)) / 10000"

definition round_row :: "display_row \<Rightarrow> display_row" where
  "round_row r =
     (case r of (s, e, i, h) \<Rightarrow> (s, map_option round4 e, map_option round4 i, map_option round4 h))"

text \<open>What a run leaves behind: the table printed by \<open>print(combined_sorted.round(4))\<close>
  and the file written by \<open>combined_sorted.to_csv(..., index=False)\<close>, a header line
  and the rows of \<open>combined_sorted\<close> with no index column.\<close>

record run_output =
  printed :: "display_row list"
  csv_header :: "string list"
  csv_rows :: "display_row list"

definition pipeline ::
  "(display_row list \<Rightarrow> display_row list) \<Rightarrow> person list \<Rightarrow> county list \<Rightarrow> error + run_output" where
  "pipeline srt df_ipums df_health =
     (let summary = ipums_summary df_ipums
      in case homicide df_health of
           Inl e \<Rightarrow> Inl e
         | Inr hom \<Rightarrow>
             (let combined_sorted = srt (select_display (combined summary hom))
              in Inr \<lparr>printed = map round_row combined_sorted,
                       csv_header = display_cols,
                       csv_rows = combined_sorted\<rparr>))"

section \<open>The health columns with the infinities of float64\<close>

text \<open>The columns \<open>homicides\<close> and \<open>population\<close> are float64. Besides finite numbers
  and NaN a float64 is plus or minus infinity: \<open>to_numeric\<close> reads the cell \<open>inf\<close> as
  one, and an operation whose result lies beyond the largest finite value gives one.
  This section repeats the steps from \<open>dropna\<close> to the join on such values. Finite
  results are still exact (no rounding), and zero has no sign.\<close>

datatype f64 = Finite rat | PosInf | NegInf | NaN64

type_synonym county64 = "f64 health_row"

text \<open>The largest finite float64, and the value of an exact result.\<close>

definition max_f64 :: rat where
  "max_f64 = (2 ^ 53 - 1) * 2 ^ 971"

definition f64_of :: "rat \<Rightarrow> f64" where
  "f64_of r = (if max_f64 < r then PosInf else if r < - max_f64 then NegInf else Finite r)"

fun fadd :: "f64 \<Rightarrow> f64 \<Rightarrow> f64" where
  "fadd NaN64 y = NaN64"
| "fadd x NaN64 = NaN64"
| "fadd PosInf NegInf = NaN64"
| "fadd NegInf PosInf = NaN64"
| "fadd PosInf y = PosInf"
| "fadd x PosInf = PosInf"
| "fadd NegInf y = NegInf"
| "fadd x NegInf = NegInf"
| "fadd (Finite a) (Finite b) = f64_of (a + b)"

fun fmul :: "f64 \<Rightarrow> f64 \<Rightarrow> f64" where
  "fmul NaN64 y = NaN64"
| "fmul x NaN64 = NaN64"
| "fmul PosInf PosInf = PosInf"
| "fmul PosInf NegInf = NegInf"
| "fmul NegInf PosInf = NegInf"
| "fmul NegInf NegInf = PosInf"
| "fmul PosInf (Finite b) = (if b = 0 then NaN64 else if 0 < b then PosInf else NegInf)"
| "fmul NegInf (Finite b) = (if b = 0 then NaN64 else if 0 < b then NegInf else PosInf)"
| "fmul (Finite a) PosInf = (if a = 0 then NaN64 else if 0 < a then PosInf else NegInf)"
| "fmul (Finite a) NegInf = (if a = 0 then NaN64 else if 0 < a then NegInf else PosInf)"
| "fmul (Finite a) (Finite b) = f64_of (a * b)"

fun fdiv64 :: "f64 \<Rightarrow> f64 \<Rightarrow> f64" where
  "fdiv64 NaN64 y = NaN64"
| "fdiv64 x NaN64 = NaN64"
| "fdiv64 PosInf PosInf = NaN64"
| "fdiv64 PosInf NegInf = NaN64"
| "fdiv64 NegInf PosInf = NaN64"
| "fdiv64 NegInf NegInf = NaN64"
| "fdiv64 PosInf (Finite b) = (if b < 0 then NegInf else PosInf)"
| "fdiv64 NegInf (Finite b) = (if b < 0 then PosInf else NegInf)"
| "fdiv64 (Finite a) PosInf = Finite 0"
| "fdiv64 (Finite a) NegInf = Finite 0"
| "fdiv64 (Finite a) (Finite b) =
     (if b = 0 then (if a = 0 then NaN64 else if 0 < a then PosInf else NegInf)
      else f64_of (a / b))"

text \<open>\<open>isna\<close>, and the comparison \<open>> 0\<close>, which is false of NaN.\<close>

definition isna :: "f64 \<Rightarrow> bool" where
  "isna x = (x = NaN64)"

definition gt0 :: "f64 \<Rightarrow> bool" where
  "gt0 x = (case x of Finite r \<Rightarrow> 0 < r | PosInf \<Rightarrow> True | NegInf \<Rightarrow> False | NaN64 \<Rightarrow> False)"

text \<open>The sum of a column skips NaN and adds the other values one after the other.\<close>

definition col_sum64 :: "f64 list \<Rightarrow> f64" where
  "col_sum64 col = foldl fadd (Finite 0) (filter (\<lambda>x. \<not> isna x) col)"

text \<open>\<open>dropna(subset=['homicides', 'population'])\<close>, then \<open>population > 0\<close>: an
  infinite value passes both.\<close>

definition df_health_clean64 :: "(int \<times> county64) list \<Rightarrow> (int \<times> county64) list" where
  "df_health_clean64 df =
     filter (\<lambda>(k, r). gt0 (population r))
       (filter (\<lambda>(k, r). \<not> isna (homicides r) \<and> \<not> isna (population r)) df)"

text \<open>The sums by state and \<open>homicides / population * 100000\<close>.\<close>

definition state_homicide64 :: "(int \<times> county64) list \<Rightarrow> (int \<times> f64) list" where
  "state_homicide64 df =
     map (\<lambda>k. let g = get_group (Some \<circ> fst) df k
              in (k, fmul (fdiv64 (col_sum64 (map (homicides \<circ> snd) g))
                                  (col_sum64 (map (population \<circ> snd) g)))
                          (Finite 100000)))
       (group_keys (Some \<circ> fst) df)"

definition homicide64 :: "county64 list \<Rightarrow> error + (int \<times> f64) list" where
  "homicide64 df_health =
     (case add_statefip (fips_filter df_health) of
        Inl e \<Rightarrow> Inl e
      | Inr df \<Rightarrow> Inr (state_homicide64 (df_health_clean64 df)))"



text \<open>A table of finite values read as a table of float64 values.\<close>

definition val64 :: "rat option \<Rightarrow> f64" where
  "val64 v = (case v of None \<Rightarrow> NaN64 | Some a \<Rightarrow> Finite a)"

definition row64 :: "county \<Rightarrow> county64" where
  "row64 r = \<lparr>fips_code = fips_code r, homicides = val64 (homicides r),
              population = val64 (population r)\<rparr>"

section \<open>Sample inputs\<close>

text \<open>A person record with the given state, group-quarters type, insurance code,
  education code and weight.\<close>

definition person_example :: "int \<Rightarrow> int \<Rightarrow> int \<Rightarrow> int \<Rightarrow> rat \<Rightarrow> person" where
  "person_example st gq hc ed w =
     \<lparr>YEAR = Some 2022, SAMPLE = Some 202201, SERIAL = Some 1, STATEFIP = Some st,
      COUNTYFIP = Some 0, GQ = Some gq, PERNUM = Some 1, PERWT = Some w,
      HCOVANY = Some hc, EDUC = Some ed, EDUCD = Some 0\<rparr>"

text \<open>Microdata with one household person in each of the states 1, 2 and 3, and a
  health table with one county in each of the states 9, 10 and 11.\<close>

definition microdata_123 :: "person list" where
  "microdata_123 =
     [person_example 1 1 2 6 10, person_example 2 1 1 7 10, person_example 3 2 2 8 10]"

definition health_9_10_11 :: "county list" where
  "health_9_10_11 =
     [\<lparr>fips_code = StrCell ''09001'', homicides = Some 2, population = Some 100000\<rparr>,
      \<lparr>fips_code = IntCell 10001, homicides = Some 3, population = Some 100000\<rparr>,
      \<lparr>fips_code = IntCell 11001, homicides = Some 4, population = Some 100000\<rparr>]"

section \<open>Properties of the microdata aggregation\<close>

lemma filter_key_distinct:
  "distinct ks \<Longrightarrow> k \<in> set ks \<Longrightarrow>
   filter (\<lambda>(k', b). k' = k) (map (\<lambda>k. (k, g k)) ks) = [(k, g k)]"
proof (induction ks)
  case Nil
  then show ?case by simp
next
  case (Cons a ks)
  show ?case
  proof (cases "a = k")
    case True
    with Cons.prems have "k \<notin> set ks" by simp
    then have "filter (\<lambda>(k', b). k' = k) (map (\<lambda>k. (k, g k)) ks) = []"
      by (induction ks) auto
    with True show ?thesis by simp
  next
    case False
    with Cons show ?thesis by simp
  qed
qed

lemma merge_inner_same_keys:
  assumes "distinct ks"
  shows "merge_inner (map (\<lambda>k. (k, f k)) ks) (map (\<lambda>k. (k, g k)) ks)
         = map (\<lambda>k. (k, f k, g k)) ks"
proof -
  have "map (\<lambda>(k, a). map (\<lambda>(k', b). (k, a, b))
              (filter (\<lambda>(k', b). k' = k) (map (\<lambda>k. (k, g k)) ks)))
          (map (\<lambda>k. (k, f k)) ls)
        = map (\<lambda>k. [(k, f k, g k)]) ls" if "set ls \<subseteq> set ks" for ls
    using that assms by (induction ls) (simp_all add: filter_key_distinct)
  then show ?thesis
    by (simp add: merge_inner_def del: map_map)
qed

lemma distinct_group_keys: "distinct (group_keys key df)"
  by (simp add: group_keys_def)

lemma sorted_group_keys: "sorted (group_keys key df)"
  by (simp add: group_keys_def)

lemma set_map_filter_Some: "set (List.map_filter f xs) = {y. \<exists>x \<in> set xs. f x = Some y}"
  by (induction xs) (auto simp: map_filter_simps split: option.splits)

lemma set_group_keys: "set (group_keys key df) = {k. \<exists>r \<in> set df. key r = Some k}"
  by (simp add: group_keys_def set_map_filter_Some)

lemma ipums_summary_rows:
  "ipums_summary df =
     map (\<lambda>k. (k, mean (map (\<lambda>p. map_option of_int (EDUC p)) (get_group STATEFIP (gq_filter df) k)),
                  mean (map (\<lambda>p. Some (if HCOVANY p = Some 2 then 1 else 0))
                          (get_group STATEFIP (gq_filter df) k))))
       (group_keys STATEFIP (gq_filter df))"
  by (simp add: ipums_summary_def edu_def ins_def Let_def merge_inner_same_keys distinct_group_keys)

lemma get_group_gq:
  "get_group STATEFIP (gq_filter df) k
   = filter (\<lambda>p. GQ p \<in> {Some 1, Some 2, Some 5} \<and> STATEFIP p = Some k) df"
proof -
  have h: "isin (GQ p) [1, 2, 5] = (GQ p \<in> {Some 1, Some 2, Some 5})" for p
    by (auto simp: isin_def split: option.splits)
  show ?thesis
    by (simp add: get_group_def gq_filter_def h)
qed

lemma gq_filter_eq: "gq_filter df = filter (\<lambda>p. GQ p \<in> {Some 1, Some 2, Some 5}) df"
proof -
  have h: "isin (GQ p) [1, 2, 5] = (GQ p \<in> {Some 1, Some 2, Some 5})" for p
    by (auto simp: isin_def split: option.splits)
  show ?thesis
    by (simp add: gq_filter_def h)
qed

lemma get_group_nonempty: "k \<in> set (group_keys key df) \<Longrightarrow> get_group key df k \<noteq> []"
  by (auto simp: set_group_keys get_group_def filter_empty_conv)

lemma mean_educ:
  "mean (map (\<lambda>p. map_option of_int (EDUC p)) G)
   = (let E = List.map_filter EDUC G
      in if E = [] then None else Some (of_int (sum_list E) / of_nat (length E)))"
proof -
  have a: "List.map_filter id (map (\<lambda>p. map_option rat_of_int (EDUC p)) G)
        = map rat_of_int (List.map_filter EDUC G)"
    by (induction G) (auto simp: map_filter_simps split: option.splits)
  have b: "sum_list (map rat_of_int E) = of_int (sum_list E)" for E
    by (induction E) auto
  show ?thesis
    by (simp add: mean_def Let_def a b)
qed

lemma mean_flags:
  "G \<noteq> [] \<Longrightarrow>
   mean (map (\<lambda>p. Some (if c p then 1 else 0)) G)
   = Some (of_nat (length (filter c G)) / of_nat (length G))"
proof -
  assume ne: "G \<noteq> []"
  have a: "List.map_filter id (map (\<lambda>p. Some (if c p then 1 else 0)) G)
        = map (\<lambda>p. if c p then (1::rat) else 0) G"
    by (induction G) (auto simp: map_filter_simps)
  have b: "sum_list (map (\<lambda>p. if c p then (1::rat) else 0) G) = of_nat (length (filter c G))"
    by (induction G) auto
  from ne show ?thesis
    by (simp add: mean_def Let_def a b)
qed

lemmas eval_simps = ipums_summary_def edu_def ins_def group_keys_def get_group_def gq_filter_def
  isin_def mean_def merge_inner_def map_filter_simps person_example_def Let_def


lemma ipums_summary_cong:
  "gq_filter df = gq_filter df' \<Longrightarrow> ipums_summary df = ipums_summary df'"
  by (simp add: ipums_summary_def)

lemma gq_filter_idem: "gq_filter (gq_filter df) = gq_filter df"
  by (simp add: gq_filter_def)

text \<open>Claim C4. Only person records whose group-quarters type is 1, 2 or 5 take part in
  the aggregation: the state table of any input is the state table of its sub-list of
  such records, so is the whole run, and two inputs with the same such records have the
  same state table.\<close>

theorem C4_gq_filter_first:
  "ipums_summary df = ipums_summary (filter (\<lambda>p. GQ p \<in> {Some 1, Some 2, Some 5}) df)
   \<and> pipeline srt df df_health
       = pipeline srt (filter (\<lambda>p. GQ p \<in> {Some 1, Some 2, Some 5}) df) df_health
   \<and> (filter (\<lambda>p. GQ p \<in> {Some 1, Some 2, Some 5}) df
        = filter (\<lambda>p. GQ p \<in> {Some 1, Some 2, Some 5}) df'
       \<longrightarrow> ipums_summary df = ipums_summary df')"
proof -
  have a: "ipums_summary df = ipums_summary (filter (\<lambda>p. GQ p \<in> {Some 1, Some 2, Some 5}) df)"
  proof -
    have "ipums_summary df = ipums_summary (gq_filter df)"
      by (rule ipums_summary_cong) (simp add: gq_filter_idem)
    then show ?thesis by (simp only: gq_filter_eq)
  qed
  have b: "pipeline srt df df_health
       = pipeline srt (filter (\<lambda>p. GQ p \<in> {Some 1, Some 2, Some 5}) df) df_health"
    unfolding pipeline_def using a by simp
  have c: "filter (\<lambda>p. GQ p \<in> {Some 1, Some 2, Some 5}) df
        = filter (\<lambda>p. GQ p \<in> {Some 1, Some 2, Some 5}) df'
       \<longrightarrow> ipums_summary df = ipums_summary df'"
    using ipums_summary_cong [of df df'] by (simp add: gq_filter_eq)
  from a b c show ?thesis by blast
qed

text \<open>Two records with group-quarters types 3 and 4 change nothing.\<close>

theorem C4_witness:
  "filter (\<lambda>p. GQ p \<in> {Some 1, Some 2, Some 5})
     [person_example 1 1 2 6 100, person_example 1 3 1 11 100, person_example 2 4 2 10 100]
   = filter (\<lambda>p. GQ p \<in> {Some 1, Some 2, Some 5}) [person_example 1 1 2 6 100]
   \<and> ipums_summary
       [person_example 1 1 2 6 100, person_example 1 3 1 11 100, person_example 2 4 2 10 100]
     = ipums_summary [person_example 1 1 2 6 100]"
  using C4_gq_filter_first [of
    "[person_example 1 1 2 6 100, person_example 1 3 1 11 100, person_example 2 4 2 10 100]"
    sort_keep "[]" "[person_example 1 1 2 6 100]"]
  by (simp add: person_example_def)

lemma perwt_gq: "gq_filter (map (\<lambda>p. p\<lparr>PERWT := w p\<rparr>) df) = map (\<lambda>p. p\<lparr>PERWT := w p\<rparr>) (gq_filter df)"
  by (simp add: gq_filter_def filter_map comp_def)

lemma perwt_edu: "edu (map (\<lambda>p. p\<lparr>PERWT := w p\<rparr>) df) = edu df"
  by (simp add: edu_def group_keys_def get_group_def filter_map comp_def List.map_filter_def)

lemma perwt_ins: "ins (map (\<lambda>p. p\<lparr>PERWT := w p\<rparr>) df) = ins df"
  by (simp add: ins_def group_keys_def get_group_def filter_map comp_def List.map_filter_def)

lemma summary_row_char:
  assumes "(k, e, i) \<in> set (ipums_summary df)"
  defines "G \<equiv> filter (\<lambda>p. GQ p \<in> {Some 1, Some 2, Some 5} \<and> STATEFIP p = Some k) df"
  shows "G \<noteq> []"
    and "e = (let E = List.map_filter EDUC G
              in if E = [] then None else Some (of_int (sum_list E) / of_nat (length E)))"
    and "i = Some (of_nat (length (filter (\<lambda>p. HCOVANY p = Some 2) G)) / of_nat (length G))"
proof -
  from assms(1) have k: "k \<in> set (group_keys STATEFIP (gq_filter df))"
    and e: "e = mean (map (\<lambda>p. map_option of_int (EDUC p)) (get_group STATEFIP (gq_filter df) k))"
    and i: "i = mean (map (\<lambda>p. Some (if HCOVANY p = Some 2 then 1 else 0))
                          (get_group STATEFIP (gq_filter df) k))"
    by (auto simp: ipums_summary_rows)
  from k show ne: "G \<noteq> []"
    using get_group_nonempty [of k STATEFIP "gq_filter df"] by (simp add: get_group_gq G_def)
  from e show "e = (let E = List.map_filter EDUC G
              in if E = [] then None else Some (of_int (sum_list E) / of_nat (length E)))"
    by (simp only: mean_educ get_group_gq G_def)
  from i ne show "i = Some (of_nat (length (filter (\<lambda>p. HCOVANY p = Some 2) G)) / of_nat (length G))"
    using mean_flags [of G "\<lambda>p. HCOVANY p = Some 2"] by (simp add: get_group_gq G_def)
qed

text \<open>Claim C9. The state table does not depend on the person weights, whatever they
  are replaced with. The row of state \<open>k\<close> is made from the records \<open>G\<close> of that state
  with group-quarters type 1, 2 or 5, each counting once: \<open>education\<close> is the sum of
  their education codes over the number of records that have one (NaN when none has),
  and \<open>insured_rate\<close> is the number of records with insurance code 2 over the number of
  records.\<close>

theorem C9_unweighted_aggregates:
  "ipums_summary (map (\<lambda>p. p\<lparr>PERWT := w p\<rparr>) df) = ipums_summary df
   \<and> ((k, e, i) \<in> set (ipums_summary df) \<longrightarrow>
        (let G = filter (\<lambda>p. GQ p \<in> {Some 1, Some 2, Some 5} \<and> STATEFIP p = Some k) df;
             E = List.map_filter EDUC G
         in G \<noteq> []
            \<and> e = (if E = [] then None else Some (of_int (sum_list E) / of_nat (length E)))
            \<and> i = Some (of_nat (length (filter (\<lambda>p. HCOVANY p = Some 2) G))
                         / of_nat (length G))))"
proof -
  have a: "ipums_summary (map (\<lambda>p. p\<lparr>PERWT := w p\<rparr>) df) = ipums_summary df"
    by (simp add: ipums_summary_def Let_def perwt_gq perwt_edu perwt_ins)
  show ?thesis
    using a summary_row_char [of k e i df] by (simp add: Let_def)
qed


text \<open>Three records of state 1 with codes 1, 0, 0, two of them insured.\<close>

theorem C9_witness:
  "(1, Some (1 / 3), Some (2 / 3)) \<in> set (ipums_summary
      [person_example 1 1 2 1 100, person_example 1 2 2 0 5, person_example 1 5 1 0 1])
   \<and> ipums_summary (map (\<lambda>p. p\<lparr>PERWT := Some 1\<rparr>)
      [person_example 1 1 2 1 100, person_example 1 2 2 0 5, person_example 1 5 1 0 1])
     = ipums_summary [person_example 1 1 2 1 100, person_example 1 2 2 0 5, person_example 1 5 1 0 1]"
  using C9_unweighted_aggregates [of "\<lambda>p. Some 1"
      "[person_example 1 1 2 1 100, person_example 1 2 2 0 5, person_example 1 5 1 0 1]"
      1 "Some (1 / 3)" "Some (2 / 3)"]
  by (simp add: eval_simps)







section \<open>Properties of the county health aggregation\<close>

lemma fips_filter_eq:
  "fips_filter df = filter (\<lambda>r. length (FIPS r) = 5 \<and> list_all isnumeric_char (FIPS r)) df"
  unfolding fips_filter_def filter_filter
  by (rule filter_cong) (auto simp: isnumeric_def)

lemma fips_filter_idem: "fips_filter (fips_filter df) = fips_filter df"
  by (simp add: fips_filter_eq)

lemma homicide_fips_filter: "homicide (fips_filter df) = homicide df"
  by (simp add: homicide_def fips_filter_idem)

lemma add_statefip_rows:
  "add_statefip rs = Inr out \<Longrightarrow>
   map snd out = rs \<and> list_all (\<lambda>(k, r). astype_int (take 2 (FIPS r)) = Inr k) out"
proof (induction rs arbitrary: out)
  case Nil
  then show ?case by simp
next
  case (Cons r rs)
  then show ?case
    by (auto split: sum.splits)
qed

lemma add_statefip_returns:
  "list_all (\<lambda>r. list_all is_decimal (take 2 (FIPS r)) \<and> FIPS r \<noteq> []) rs \<Longrightarrow>
   \<exists>out. add_statefip rs = Inr out"
proof (induction rs)
  case Nil
  then show ?case by simp
next
  case (Cons r rs)
  then obtain out where "add_statefip rs = Inr out" by auto
  moreover from Cons.prems have "\<exists>k. astype_int (take 2 (FIPS r)) = Inr k"
    by (simp add: astype_int_def)
  ultimately show ?case by auto
qed

text \<open>The health side returns a table whenever the first two characters of every kept
  key are decimal digits.\<close>

lemma homicide_returns:
  assumes "list_all (\<lambda>r. list_all is_decimal (take 2 (FIPS r))) (fips_filter df_health)"
  shows "\<exists>hom. homicide df_health = Inr hom"
proof -
  have "list_all (\<lambda>r. FIPS r \<noteq> []) (fips_filter df_health)"
    by (auto simp: fips_filter_eq list_all_iff)
  with assms have "list_all (\<lambda>r. list_all is_decimal (take 2 (FIPS r)) \<and> FIPS r \<noteq> [])
                     (fips_filter df_health)"
    by (simp add: list_all_iff)
  from add_statefip_returns [OF this] show ?thesis
    by (auto simp: homicide_def)
qed

lemma get_group_pairs:
  "get_group (Some \<circ> fst) rows k = filter (\<lambda>(k', r). k' = k) rows"
  by (simp add: get_group_def case_prod_unfold)

lemma keyed_filter:
  "list_all (\<lambda>(k, r). key r = Inr k) out \<Longrightarrow>
   map snd (filter (\<lambda>(k', r). k' = k \<and> P r) out)
   = filter (\<lambda>r. key r = Inr k \<and> P r) (map snd out)"
  by (induction out) auto

lemma col_sum_map_filter: "col_sum (map f rs) = sum_list (List.map_filter f rs)"
  by (simp add: col_sum_def List.map_filter_def comp_def filter_map)

lemma sum_list_nonneg_rat: "\<forall>x \<in> set xs. 0 < (x::rat) \<Longrightarrow> 0 \<le> sum_list xs"
  by (induction xs) auto

lemma sum_list_pos_rat:
  assumes "xs \<noteq> []" and "\<forall>x \<in> set xs. 0 < (x::rat)"
  shows "0 < sum_list xs"
proof (cases xs)
  case Nil
  with assms(1) show ?thesis by simp
next
  case (Cons a ys)
  with assms(2) have "0 < a" and "0 \<le> sum_list ys"
    using sum_list_nonneg_rat [of ys] by simp_all
  with Cons show ?thesis by simp
qed

lemma clean_rows:
  "(k, r) \<in> set (df_health_clean rows) \<Longrightarrow>
   (k, r) \<in> set rows \<and> (\<exists>h. homicides r = Some h) \<and> (\<exists>p. population r = Some p \<and> 0 < p)"
  by (auto simp: df_health_clean_def split: option.splits)

lemma df_health_clean_eq:
  "df_health_clean rows
   = filter (\<lambda>(k, r). homicides r \<noteq> None \<and> (\<exists>p. population r = Some p \<and> 0 < p)) rows"
  unfolding df_health_clean_def filter_filter
  by (rule filter_cong) (auto split: option.splits)

lemma state_homicide_row:
  assumes "(k, v) \<in> set (state_homicide (df_health_clean rows))"
  defines "g \<equiv> filter (\<lambda>(k', r). k' = k) (df_health_clean rows)"
  shows "g \<noteq> []"
    and "0 < sum_list (List.map_filter (population \<circ> snd) g)"
    and "v = Some (sum_list (List.map_filter (homicides \<circ> snd) g)
                   / sum_list (List.map_filter (population \<circ> snd) g) * 100000)"
proof -
  from assms(1) have k: "k \<in> set (group_keys (Some \<circ> fst) (df_health_clean rows))"
    and v: "v = map_option (\<lambda>q. q * 100000)
                  (fdiv (col_sum (map (homicides \<circ> snd) g)) (col_sum (map (population \<circ> snd) g)))"
    by (auto simp: state_homicide_def Let_def get_group_pairs g_def)
  from k show ne: "g \<noteq> []"
    using get_group_nonempty [of k "Some \<circ> fst" "df_health_clean rows"]
    by (simp add: get_group_pairs g_def)
  have some: "\<forall>x \<in> set g. \<exists>p. population (snd x) = Some p \<and> 0 < p"
    using clean_rows [of _ _ rows] by (auto simp: g_def)
  have len: "List.map_filter (population \<circ> snd) g \<noteq> []"
  proof -
    from ne obtain x xs where g: "g = x # xs" by (cases g) auto
    with some obtain p where "population (snd x) = Some p" by auto
    with g show ?thesis by (simp add: map_filter_simps)
  qed
  have "\<forall>p \<in> set (List.map_filter (population \<circ> snd) g). 0 < p"
    using some by (auto simp: set_map_filter_Some)
  with len show pos: "0 < sum_list (List.map_filter (population \<circ> snd) g)"
    by (rule sum_list_pos_rat)
  with v show "v = Some (sum_list (List.map_filter (homicides \<circ> snd) g)
                   / sum_list (List.map_filter (population \<circ> snd) g) * 100000)"
    by (simp add: fdiv_def col_sum_map_filter)
qed


lemma map_filter_snd: "List.map_filter (f \<circ> snd) g = List.map_filter f (map snd g)"
  by (simp add: List.map_filter_def comp_def filter_map)

lemma homicide_row:
  assumes "homicide df_health = Inr hom" and "(k, v) \<in> set hom"
  defines "S \<equiv> filter (\<lambda>r. length (FIPS r) = 5 \<and> list_all isnumeric_char (FIPS r)
                          \<and> astype_int (take 2 (FIPS r)) = Inr k
                          \<and> homicides r \<noteq> None \<and> (\<exists>p. population r = Some p \<and> 0 < p))
                 df_health"
  shows "S \<noteq> []"
    and "0 < sum_list (List.map_filter population S)"
    and "v = Some (sum_list (List.map_filter homicides S)
                   / sum_list (List.map_filter population S) * 100000)"
proof -
  from assms(1) obtain rows where rows: "add_statefip (fips_filter df_health) = Inr rows"
    and hom: "hom = state_homicide (df_health_clean rows)"
    by (auto simp: homicide_def split: sum.splits)
  define g where "g = filter (\<lambda>(k', r). k' = k) (df_health_clean rows)"
  from add_statefip_rows [OF rows]
  have snd: "map snd rows = fips_filter df_health"
    and keys: "list_all (\<lambda>(k, r). astype_int (take 2 (FIPS r)) = Inr k) rows"
    by simp_all
  have "g = filter (\<lambda>(k', r). k' = k \<and> (homicides r \<noteq> None \<and> (\<exists>p. population r = Some p \<and> 0 < p))) rows"
    unfolding g_def df_health_clean_eq filter_filter
    by (rule filter_cong) auto
  then have "map snd g = filter (\<lambda>r. astype_int (take 2 (FIPS r)) = Inr k
                \<and> (homicides r \<noteq> None \<and> (\<exists>p. population r = Some p \<and> 0 < p))) (map snd rows)"
    using keyed_filter [OF keys] by simp
  also have "\<dots> = S"
    unfolding snd fips_filter_eq filter_filter S_def
    by (rule filter_cong) auto
  finally have gS: "map snd g = S" .
  note row = state_homicide_row [OF assms(2) [unfolded hom], folded g_def]
  from row(1) gS show "S \<noteq> []" by auto
  from row(2) gS show "0 < sum_list (List.map_filter population S)"
    by (simp add: map_filter_snd)
  from row(3) gS show "v = Some (sum_list (List.map_filter homicides S)
                   / sum_list (List.map_filter population S) * 100000)"
    by (simp add: map_filter_snd)
qed

lemmas health_simps = homicide_def fips_filter_def FIPS_def zfill_def isnumeric_def
  isnumeric_char_def is_decimal_def astype_int_def digit_val_def df_health_clean_def
  state_homicide_def group_keys_def get_group_def col_sum_def fdiv_def map_filter_simps Let_def


lemma homicide_keys:
  assumes "homicide df_health = Inr hom"
  shows "distinct (map fst hom)" and "sorted (map fst hom)"
    and "r \<in> set df_health \<Longrightarrow> length (FIPS r) = 5 \<Longrightarrow> list_all isnumeric_char (FIPS r) \<Longrightarrow>
         astype_int (take 2 (FIPS r)) = Inr k \<Longrightarrow> homicides r \<noteq> None \<Longrightarrow>
         population r = Some p \<Longrightarrow> 0 < p \<Longrightarrow> k \<in> fst ` set hom"
proof -
  from assms obtain rows where rows: "add_statefip (fips_filter df_health) = Inr rows"
    and hom: "hom = state_homicide (df_health_clean rows)"
    by (auto simp: homicide_def split: sum.splits)
  have fst: "map fst hom = group_keys (Some \<circ> fst) (df_health_clean rows)"
    by (simp add: hom state_homicide_def comp_def Let_def)
  show "distinct (map fst hom)" "sorted (map fst hom)"
    by (simp_all add: fst distinct_group_keys sorted_group_keys)
  assume r: "r \<in> set df_health" "length (FIPS r) = 5" "list_all isnumeric_char (FIPS r)"
    and k: "astype_int (take 2 (FIPS r)) = Inr k"
    and v: "homicides r \<noteq> None" "population r = Some p" "0 < p"
  from add_statefip_rows [OF rows]
  have snd: "map snd rows = fips_filter df_health"
    and keys: "list_all (\<lambda>(k, r). astype_int (take 2 (FIPS r)) = Inr k) rows"
    by simp_all
  from r have "r \<in> set (map snd rows)"
    by (simp add: snd fips_filter_eq)
  then obtain k' where in_rows: "(k', r) \<in> set rows" by auto
  with keys k have "k' = k"
    by (auto simp: list_all_iff)
  with in_rows v have "(k, r) \<in> set (df_health_clean rows)"
    by (simp add: df_health_clean_eq)
  then have "k \<in> set (group_keys (Some \<circ> fst) (df_health_clean rows))"
    by (force simp: set_group_keys)
  then show "k \<in> fst ` set hom"
    by (simp add: fst [symmetric])
qed

text \<open>Claim C1. Let \<open>S k\<close> be the county records of state \<open>k\<close> that survive: the FIPS
  key is valid, the homicide count and the population are present and the population is
  positive. The state table has exactly one row for every state with a surviving county,
  and its rate is the sum of the homicide counts of \<open>S k\<close> over the sum of their
  populations, times 100000. For two counties of one state with 10 homicides among
  100000 people and 1 homicide among 1000000 people this ratio of sums is 1, while the
  mean of the two county rates is 5.05.\<close>

theorem C1_ratio_of_sums:
  "(homicide df_health = Inr hom \<longrightarrow>
      (let S = (\<lambda>k. filter (\<lambda>r. length (FIPS r) = 5 \<and> list_all isnumeric_char (FIPS r)
                                 \<and> astype_int (take 2 (FIPS r)) = Inr k
                                 \<and> homicides r \<noteq> None
                                 \<and> (\<exists>p. population r = Some p \<and> 0 < p))
                       df_health)
       in distinct (map fst hom)
          \<and> fst ` set hom = {k. S k \<noteq> []}
          \<and> (\<forall>(k, v) \<in> set hom.
                v = Some (sum_list (List.map_filter homicides (S k))
                          / sum_list (List.map_filter population (S k)) * 100000))))
   \<and> homicide
        [\<lparr>fips_code = StrCell ''01001'', homicides = Some 10, population = Some 100000\<rparr>,
         \<lparr>fips_code = StrCell ''01003'', homicides = Some 1, population = Some 1000000\<rparr>]
      = Inr [(1, Some 1)]
   \<and> mean (map homicide_rate_per_100k
        [\<lparr>fips_code = StrCell ''01001'', homicides = Some 10, population = Some 100000\<rparr>,
         \<lparr>fips_code = StrCell ''01003'', homicides = Some 1, population = Some 1000000\<rparr>])
      = Some (101 / 20)
   \<and> Some (1 :: rat) \<noteq> Some (101 / 20)"
proof -
  have a: "homicide
        [\<lparr>fips_code = StrCell ''01001'', homicides = Some 10, population = Some 100000\<rparr>,
         \<lparr>fips_code = StrCell ''01003'', homicides = Some 1, population = Some 1000000\<rparr>]
      = Inr [(1, Some 1)]"
    by (simp add: health_simps)
  have b: "mean (map homicide_rate_per_100k
        [\<lparr>fips_code = StrCell ''01001'', homicides = Some 10, population = Some 100000\<rparr>,
         \<lparr>fips_code = StrCell ''01003'', homicides = Some 1, population = Some 1000000\<rparr>])
      = Some (101 / 20)"
    by (simp add: mean_def homicide_rate_per_100k_def map_filter_simps)
  have c: "Some (1 :: rat) \<noteq> Some (101 / 20)"
    by simp
  have d: "distinct (map fst hom)
          \<and> fst ` set hom = {k. S k \<noteq> []}
          \<and> (\<forall>(k, v) \<in> set hom.
                v = Some (sum_list (List.map_filter homicides (S k))
                          / sum_list (List.map_filter population (S k)) * 100000))"
    if h: "homicide df_health = Inr hom"
      and S: "S = (\<lambda>k. filter (\<lambda>r. length (FIPS r) = 5 \<and> list_all isnumeric_char (FIPS r)
                                 \<and> astype_int (take 2 (FIPS r)) = Inr k
                                 \<and> homicides r \<noteq> None
                                 \<and> (\<exists>p. population r = Some p \<and> 0 < p))
                       df_health)" for S
  proof (intro conjI)
    show "distinct (map fst hom)" by (rule homicide_keys(1) [OF h])
    show "fst ` set hom = {k. S k \<noteq> []}"
    proof (intro set_eqI iffI)
      fix k assume "k \<in> fst ` set hom"
      then obtain v where "(k, v) \<in> set hom" by auto
      from homicide_row(1) [OF h this] show "k \<in> {k. S k \<noteq> []}"
        by (simp add: S)
    next
      fix k assume "k \<in> {k. S k \<noteq> []}"
      then obtain r where "r \<in> set (S k)" by (cases "S k") auto
      then show "k \<in> fst ` set hom"
        using homicide_keys(3) [OF h, of r k] by (auto simp: S)
    qed
    show "\<forall>(k, v) \<in> set hom.
                v = Some (sum_list (List.map_filter homicides (S k))
                          / sum_list (List.map_filter population (S k)) * 100000)"
      using homicide_row(3) [OF h] by (auto simp: S)
  qed
  from a b c d show ?thesis
    by (simp only: Let_def) blast
qed

text \<open>A run over four counties of two states, one of them without a homicide count.\<close>

theorem C1_witness:
  "homicide
     [\<lparr>fips_code = StrCell ''01001'', homicides = Some 10, population = Some 100000\<rparr>,
      \<lparr>fips_code = StrCell ''02003'', homicides = Some 4, population = Some 200000\<rparr>,
      \<lparr>fips_code = IntCell 1003, homicides = Some 1, population = Some 1000000\<rparr>,
      \<lparr>fips_code = IntCell 1005, homicides = None, population = Some 7\<rparr>]
   = Inr [(1, Some 1), (2, Some 2)]
   \<and> Some (1 :: rat) = Some ((10 + 1) / (100000 + 1000000) * 100000)"
  using C1_ratio_of_sums [of
     "[\<lparr>fips_code = StrCell ''01001'', homicides = Some 10, population = Some 100000\<rparr>,
      \<lparr>fips_code = StrCell ''02003'', homicides = Some 4, population = Some 200000\<rparr>,
      \<lparr>fips_code = IntCell 1003, homicides = Some 1, population = Some 1000000\<rparr>,
      \<lparr>fips_code = IntCell 1005, homicides = None, population = Some 7\<rparr>]"
     "[(1, Some 1), (2, Some 2)]"]
  by (simp add: health_simps str_nat.simps digit_char_def)


text \<open>No ASCII character but the ten digits is numeric, padding adds only the digit
  zero, and the text of an integer is ASCII.\<close>

lemma ascii_numeric: "(of_char c :: nat) < 128 \<Longrightarrow> isnumeric_char c = is_decimal c"
  by (auto simp: isnumeric_char_def is_decimal_def)

lemma zfill_chars: "set (zfill w s) \<subseteq> insert CHR ''0'' (set s)"
  by (auto simp: zfill_def split: list.splits if_splits)

lemma ascii_FIPS:
  assumes "list_all (\<lambda>c. (of_char c :: nat) < 128) (astype_str (fips_code r))"
  shows "list_all (\<lambda>c. (of_char c :: nat) < 128) (FIPS r)"
proof -
  have "(of_char c :: nat) < 128" if "c \<in> set (FIPS r)" for c
  proof -
    from that zfill_chars [of 5 "astype_str (fips_code r)"]
    have "c = CHR ''0'' \<or> c \<in> set (astype_str (fips_code r))"
      by (auto simp: FIPS_def)
    with assms show ?thesis
      by (auto simp: list_all_iff)
  qed
  then show ?thesis by (simp add: list_all_iff)
qed

lemma ascii_FIPS_numeric:
  assumes "list_all (\<lambda>c. (of_char c :: nat) < 128) (astype_str (fips_code r))"
  shows "list_all isnumeric_char (FIPS r) = list_all is_decimal (FIPS r)"
  using ascii_FIPS [OF assms] by (auto simp: list_all_iff ascii_numeric)

lemma digit_char_ascii: "d < 10 \<Longrightarrow> (of_char (digit_char d) :: nat) < 128"
proof -
  assume "d < 10"
  then have "d = 0 \<or> d = 1 \<or> d = 2 \<or> d = 3 \<or> d = 4 \<or> d = 5 \<or> d = 6 \<or> d = 7 \<or> d = 8 \<or> d = 9"
    by arith
  then show ?thesis
    by (elim disjE) (simp_all add: digit_char_def)
qed

lemma str_nat_ascii: "list_all (\<lambda>c. (of_char c :: nat) < 128) (str_nat n)"
proof (induction n rule: str_nat.induct)
  case (1 n)
  show ?case
  proof (cases "n < 10")
    case True
    then show ?thesis
      by (subst str_nat.simps) (simp add: digit_char_ascii)
  next
    case False
    with 1 have "list_all (\<lambda>c. (of_char c :: nat) < 128) (str_nat (n div 10))" by simp
    with False show ?thesis
      by (subst str_nat.simps) (simp add: digit_char_ascii)
  qed
qed

lemma int_cell_ascii: "list_all (\<lambda>c. (of_char c :: nat) < 128) (astype_str (IntCell i))"
  by (simp add: str_nat_ascii)

lemma take2_decimal:
  assumes "length s = 5" and "list_all is_decimal s"
  shows "astype_int (take 2 s) = Inr (int (10 * digit_val (s ! 0) + digit_val (s ! 1)))"
proof -
  from assms(1) obtain a b c d e where s: "s = [a, b, c, d, e]"
    by (auto simp: eval_nat_numeral length_Suc_conv)
  with assms(2) show ?thesis
    by (simp add: astype_int_def)
qed


lemma ascii_kept_iff:
  assumes "r \<in> set df"
    and "list_all (\<lambda>c. (of_char c :: nat) < 128) (astype_str (fips_code r))"
  shows "r \<in> set (fips_filter df)
         \<longleftrightarrow> length (FIPS r) = 5 \<and> list_all is_decimal (FIPS r)"
  using assms(1) ascii_FIPS_numeric [OF assms(2)] by (simp add: fips_filter_eq)

lemma ascii_table:
  assumes "list_all (\<lambda>r. list_all (\<lambda>c. (of_char c :: nat) < 128) (astype_str (fips_code r))) df"
  shows "fips_filter df = filter (\<lambda>r. length (FIPS r) = 5 \<and> list_all is_decimal (FIPS r)) df"
    and "\<exists>rows. add_statefip (fips_filter df) = Inr rows \<and> map snd rows = fips_filter df
           \<and> list_all (\<lambda>(k, r). k = int (10 * digit_val (FIPS r ! 0) + digit_val (FIPS r ! 1))) rows"
proof -
  show eq: "fips_filter df = filter (\<lambda>r. length (FIPS r) = 5 \<and> list_all is_decimal (FIPS r)) df"
    unfolding fips_filter_eq
  proof (rule filter_cong)
    fix r assume "r \<in> set df"
    with assms have "list_all (\<lambda>c. (of_char c :: nat) < 128) (astype_str (fips_code r))"
      by (simp add: list_all_iff)
    from ascii_FIPS_numeric [OF this]
    show "(length (FIPS r) = 5 \<and> list_all isnumeric_char (FIPS r))
          = (length (FIPS r) = 5 \<and> list_all is_decimal (FIPS r))"
      by simp
  qed simp
  have dec: "list_all (\<lambda>r. list_all is_decimal (take 2 (FIPS r)) \<and> FIPS r \<noteq> []) (fips_filter df)"
    unfolding eq by (auto simp: list_all_iff dest: in_set_takeD)
  from add_statefip_returns [OF dec] obtain rows
    where rows: "add_statefip (fips_filter df) = Inr rows" by blast
  from add_statefip_rows [OF rows]
  have snd: "map snd rows = fips_filter df"
    and keys: "list_all (\<lambda>(k, r). astype_int (take 2 (FIPS r)) = Inr k) rows"
    by simp_all
  have "k = int (10 * digit_val (FIPS r ! 0) + digit_val (FIPS r ! 1))"
    if kr: "(k, r) \<in> set rows" for k r
  proof -
    from kr have "r \<in> set (map snd rows)" by force
    then have "length (FIPS r) = 5" and "list_all is_decimal (FIPS r)"
      unfolding snd eq by simp_all
    from take2_decimal [OF this] kr keys show ?thesis
      by (auto simp: list_all_iff)
  qed
  then have "list_all (\<lambda>(k, r). k = int (10 * digit_val (FIPS r ! 0) + digit_val (FIPS r ! 1))) rows"
    by (auto simp: list_all_iff)
  with rows snd show "\<exists>rows. add_statefip (fips_filter df) = Inr rows \<and> map snd rows = fips_filter df
           \<and> list_all (\<lambda>(k, r). k = int (10 * digit_val (FIPS r ! 0) + digit_val (FIPS r ! 1))) rows"
    by blast
qed

text \<open>The text \<open>6037\<close> is padded to \<open>06037\<close> before its length is tested: the record
  is kept, with state code 6.\<close>

theorem C3_counterexample:
  "add_statefip (fips_filter
      [\<lparr>fips_code = StrCell ''6037'', homicides = Some 3, population = Some 1000\<rparr>])
   = Inr [(6, \<lparr>fips_code = StrCell ''6037'', homicides = Some 3, population = Some 1000\<rparr>)]"
  by (simp add: health_simps)

text \<open>Claim C3, amended. The key is stringified and padded with zeros on the left to
  width 5. A record whose key is ASCII text is kept exactly when the padded key has
  length 5 and consists of decimal digits; when every key of the table is ASCII, the
  table after validation is the sub-list of those records and every kept record gets
  the number written by the first two digits of its padded key as state code. The text
  of an integer key is ASCII. The rows that are dropped are gone before the state code is
  derived and before any aggregation. The key \<open>06037\<close> is kept with state 6, and so are
  the integer 6037 and the text \<open>6037\<close>, both padded to \<open>06037\<close>; \<open>ABCDE\<close> and
  \<open>123456\<close> are dropped.\<close>

theorem C3_fips_validation:
  "(r \<in> set df \<and> list_all (\<lambda>c. (of_char c :: nat) < 128) (astype_str (fips_code r)) \<longrightarrow>
      (r \<in> set (fips_filter df)
       \<longleftrightarrow> length (zfill 5 (astype_str (fips_code r))) = 5
           \<and> list_all is_decimal (zfill 5 (astype_str (fips_code r)))))
   \<and> (list_all (\<lambda>r. list_all (\<lambda>c. (of_char c :: nat) < 128) (astype_str (fips_code r))) df \<longrightarrow>
        fips_filter df
          = filter (\<lambda>r. length (zfill 5 (astype_str (fips_code r))) = 5
                        \<and> list_all is_decimal (zfill 5 (astype_str (fips_code r)))) df
        \<and> (\<exists>rows. add_statefip (fips_filter df) = Inr rows
              \<and> map snd rows = fips_filter df
              \<and> list_all (\<lambda>(k, r). k = int (10 * digit_val (FIPS r ! 0) + digit_val (FIPS r ! 1)))
                   rows))
   \<and> list_all (\<lambda>c. (of_char c :: nat) < 128) (astype_str (IntCell i))
   \<and> homicide df = homicide (fips_filter df)
   \<and> add_statefip (fips_filter [\<lparr>fips_code = StrCell ''06037'', homicides = h, population = p\<rparr>])
       = Inr [(6, \<lparr>fips_code = StrCell ''06037'', homicides = h, population = p\<rparr>)]
   \<and> add_statefip (fips_filter [\<lparr>fips_code = IntCell 6037, homicides = h, population = p\<rparr>])
       = Inr [(6, \<lparr>fips_code = IntCell 6037, homicides = h, population = p\<rparr>)]
   \<and> add_statefip (fips_filter [\<lparr>fips_code = StrCell ''6037'', homicides = h, population = p\<rparr>])
       = Inr [(6, \<lparr>fips_code = StrCell ''6037'', homicides = h, population = p\<rparr>)]
   \<and> fips_filter [\<lparr>fips_code = StrCell ''ABCDE'', homicides = h, population = p\<rparr>] = []
   \<and> fips_filter [\<lparr>fips_code = StrCell ''123456'', homicides = h, population = p\<rparr>] = []"
proof -
  have a: "r \<in> set (fips_filter df)
       \<longleftrightarrow> length (zfill 5 (astype_str (fips_code r))) = 5
           \<and> list_all is_decimal (zfill 5 (astype_str (fips_code r)))"
    if "r \<in> set df" and "list_all (\<lambda>c. (of_char c :: nat) < 128) (astype_str (fips_code r))"
    using ascii_kept_iff [OF that] by (simp only: FIPS_def)
  have b: "fips_filter df
          = filter (\<lambda>r. length (zfill 5 (astype_str (fips_code r))) = 5
                        \<and> list_all is_decimal (zfill 5 (astype_str (fips_code r)))) df
        \<and> (\<exists>rows. add_statefip (fips_filter df) = Inr rows
              \<and> map snd rows = fips_filter df
              \<and> list_all (\<lambda>(k, r). k = int (10 * digit_val (FIPS r ! 0) + digit_val (FIPS r ! 1)))
                   rows)"
    if "list_all (\<lambda>r. list_all (\<lambda>c. (of_char c :: nat) < 128) (astype_str (fips_code r))) df"
    using ascii_table [OF that] by (simp only: FIPS_def) 
  have c: "homicide df = homicide (fips_filter df)"
    by (simp only: homicide_fips_filter)
  have d: "add_statefip (fips_filter [\<lparr>fips_code = StrCell ''06037'', homicides = h, population = p\<rparr>])
       = Inr [(6, \<lparr>fips_code = StrCell ''06037'', homicides = h, population = p\<rparr>)]"
    by (simp add: health_simps)
  have e: "add_statefip (fips_filter [\<lparr>fips_code = IntCell 6037, homicides = h, population = p\<rparr>])
       = Inr [(6, \<lparr>fips_code = IntCell 6037, homicides = h, population = p\<rparr>)]"
    by (simp add: health_simps str_nat.simps digit_char_def)
  have f: "add_statefip (fips_filter [\<lparr>fips_code = StrCell ''6037'', homicides = h, population = p\<rparr>])
       = Inr [(6, \<lparr>fips_code = StrCell ''6037'', homicides = h, population = p\<rparr>)]"
    by (simp add: health_simps)
  have g: "fips_filter [\<lparr>fips_code = StrCell ''ABCDE'', homicides = h, population = p\<rparr>] = []"
    by (simp add: health_simps)
  have i': "fips_filter [\<lparr>fips_code = StrCell ''123456'', homicides = h, population = p\<rparr>] = []"
    by (simp add: health_simps)
  from a b c d e f g i' int_cell_ascii [of i] show ?thesis by blast
qed

text \<open>A table with the keys \<open>6037\<close> and \<open>ABCDE\<close>.\<close>

theorem C3_witness:
  "list_all (\<lambda>c. (of_char c :: nat) < 128) ''6037''
   \<and> list_all (\<lambda>c. (of_char c :: nat) < 128) ''ABCDE''
   \<and> fips_filter
        [\<lparr>fips_code = StrCell ''6037'', homicides = Some 3, population = Some 1000\<rparr>,
         \<lparr>fips_code = StrCell ''ABCDE'', homicides = Some 3, population = Some 1000\<rparr>]
      = [\<lparr>fips_code = StrCell ''6037'', homicides = Some 3, population = Some 1000\<rparr>]
   \<and> add_statefip
        [\<lparr>fips_code = StrCell ''6037'', homicides = Some 3, population = Some 1000\<rparr>]
      = Inr [(6, \<lparr>fips_code = StrCell ''6037'', homicides = Some 3, population = Some 1000\<rparr>)]"
  using C3_fips_validation [of
      "\<lparr>fips_code = StrCell ''6037'', homicides = Some 3, population = Some 1000\<rparr>"
      "[\<lparr>fips_code = StrCell ''6037'', homicides = Some 3, population = Some 1000\<rparr>,
        \<lparr>fips_code = StrCell ''ABCDE'', homicides = Some 3, population = Some 1000\<rparr>]"]
  by (simp add: health_simps)

text \<open>Apart from claim C3: \<open>isnumeric\<close> passes six characters that are no decimal
  digits, and \<open>int()\<close> does not parse them. A key that ends in one of them is kept; a
  key that begins with one is kept too, and the conversion of the state code then
  raises ValueError for the whole table.\<close>

lemma isnumeric_not_decimal:
  "isnumeric_char c \<and> \<not> is_decimal c \<longleftrightarrow> (of_char c :: nat) \<in> {178, 179, 185, 188, 189, 190}"
  by (auto simp: isnumeric_char_def is_decimal_def)

lemma superscript_key_kept:
  "add_statefip (fips_filter
      [\<lparr>fips_code = StrCell [CHR ''1'', CHR ''2'', CHR ''3'', CHR ''4'', CHR 0xB2],
        homicides = h, population = p\<rparr>])
   = Inr [(12, \<lparr>fips_code = StrCell [CHR ''1'', CHR ''2'', CHR ''3'', CHR ''4'', CHR 0xB2],
                 homicides = h, population = p\<rparr>)]"
  by (simp add: health_simps)

lemma superscript_key_raises:
  "homicide
      (df @ [\<lparr>fips_code = StrCell [CHR 0xB2, CHR ''1'', CHR ''2'', CHR ''3'', CHR ''4''],
               homicides = h, population = p\<rparr>])
   = Inl ValueError"
proof -
  let ?r = "\<lparr>fips_code = StrCell [CHR 0xB2, CHR ''1'', CHR ''2'', CHR ''3'', CHR ''4''],
             homicides = h, population = p\<rparr>"
  have r: "fips_filter [?r] = [?r]" and e: "astype_int (take 2 (FIPS ?r)) = Inl ValueError"
    by (simp_all add: health_simps)
  have one: "x = ValueError" for x :: error
    by (cases x) simp
  have "add_statefip (rs @ [?r]) = Inl ValueError" for rs
    by (induction rs) (auto simp: e one split: sum.splits)
  moreover have "fips_filter (df @ [?r]) = fips_filter df @ [?r]"
    using r by (simp add: fips_filter_def)
  ultimately show ?thesis
    by (simp add: homicide_def)
qed


lemmas join_simps = combined_def merge_inner_def merge_left_def Let_def

subsection \<open>Float64 values\<close>

text \<open>A sum of finite values whose magnitudes add up to at most the largest finite
  value is exact at every step.\<close>

lemma f64_of_Finite: "\<bar>r\<bar> \<le> max_f64 \<Longrightarrow> f64_of r = Finite r"
  by (auto simp: f64_of_def)

lemma foldl_fadd_Finite:
  "\<bar>a\<bar> + sum_list (map abs xs) \<le> max_f64 \<Longrightarrow>
   foldl fadd (Finite a) (map Finite xs) = Finite (a + sum_list xs)"
proof (induction xs arbitrary: a)
  case Nil
  then show ?case by simp
next
  case (Cons x xs)
  have nonneg: "0 \<le> sum_list (map abs xs)"
    by (rule sum_list_nonneg) auto
  from Cons.prems nonneg have "\<bar>a + x\<bar> \<le> max_f64"
    by simp
  then have step: "fadd (Finite a) (Finite x) = Finite (a + x)"
    by (simp add: f64_of_Finite)
  from Cons.prems have "\<bar>a + x\<bar> + sum_list (map abs xs) \<le> max_f64"
    by simp
  from Cons.IH [OF this] step show ?case
    by (simp add: add.assoc)
qed



lemma sum_list_filter_le:
  "(\<And>x. 0 \<le> f x) \<Longrightarrow> sum_list (map f (filter P xs)) \<le> (sum_list (map f xs) :: rat)"
proof (induction xs)
  case Nil
  then show ?case by simp
next
  case (Cons x xs)
  then have "sum_list (map f (filter P xs)) \<le> sum_list (map f xs)" by simp
  with Cons.prems [of x] show ?case by simp
qed











subsection \<open>The finite model inside the float64 model\<close>

text \<open>On a table of finite values whose sums and rates stay in the float64 range, the
  state table of the float64 model is the state table of the finite model.\<close>

lemma FIPS_row64: "FIPS (row64 r) = FIPS r"
  by (simp add: FIPS_def row64_def)

lemma fips_filter_row64: "fips_filter (map row64 df) = map row64 (fips_filter df)"
  by (simp add: fips_filter_def filter_map comp_def FIPS_row64)

lemma add_statefip_row64:
  "add_statefip (map row64 rs)
   = (case add_statefip rs of Inl e \<Rightarrow> Inl e | Inr out \<Rightarrow> Inr (map (apsnd row64) out))"
  by (induction rs) (auto simp: FIPS_row64 split: sum.splits)

lemma isna_val64: "isna (val64 v) = (v = None)"
  by (cases v) (simp_all add: val64_def isna_def)

lemma gt0_val64: "gt0 (val64 v) = (case v of None \<Rightarrow> False | Some p \<Rightarrow> 0 < p)"
  by (cases v) (simp_all add: val64_def gt0_def)

lemma clean_row64:
  "df_health_clean64 (map (apsnd row64) rows) = map (apsnd row64) (df_health_clean rows)"
  by (simp add: df_health_clean64_def df_health_clean_def filter_map comp_def case_prod_unfold
      row64_def isna_val64 gt0_val64)

lemma group_keys_row64:
  "group_keys (Some \<circ> fst) (map (apsnd row64) c) = group_keys (Some \<circ> fst) c"
  by (simp add: group_keys_def List.map_filter_def comp_def)

lemma get_group_row64:
  "get_group (Some \<circ> fst) (map (apsnd row64) c) k = map (apsnd row64) (get_group (Some \<circ> fst) c k)"
  by (simp add: get_group_def filter_map comp_def)

lemma col_sum64_val64:
  assumes "sum_list (map (\<lambda>v. case v of Some a \<Rightarrow> \<bar>a\<bar> | None \<Rightarrow> 0) xs) \<le> max_f64"
  shows "col_sum64 (map val64 xs) = Finite (col_sum xs)"
proof -
  have f: "filter (\<lambda>x. \<not> isna x) (map val64 xs) = map Finite (List.map_filter id xs)"
    by (induction xs) (auto simp: map_filter_simps isna_def val64_def split: option.splits)
  have "sum_list (map abs (List.map_filter id xs))
        = sum_list (map (\<lambda>v. case v of Some a \<Rightarrow> \<bar>a\<bar> | None \<Rightarrow> 0) xs)"
    by (induction xs) (auto simp: map_filter_simps split: option.splits)
  with assms have "\<bar>0\<bar> + sum_list (map abs (List.map_filter id xs)) \<le> max_f64"
    by simp
  from foldl_fadd_Finite [OF this] show ?thesis
    by (simp add: col_sum64_def col_sum_def f)
qed


lemma group_rows:
  assumes "add_statefip (fips_filter df_health) = Inr rows"
  shows "map snd (get_group (Some \<circ> fst) (df_health_clean rows) k)
         = filter (\<lambda>r. length (FIPS r) = 5 \<and> list_all isnumeric_char (FIPS r)
                       \<and> astype_int (take 2 (FIPS r)) = Inr k
                       \<and> homicides r \<noteq> None \<and> (\<exists>p. population r = Some p \<and> 0 < p))
             df_health"
proof -
  define g where "g = get_group (Some \<circ> fst) (df_health_clean rows) k"
  from add_statefip_rows [OF assms]
  have snd: "map snd rows = fips_filter df_health"
    and keys: "list_all (\<lambda>(k, r). astype_int (take 2 (FIPS r)) = Inr k) rows"
    by simp_all
  have "g = filter (\<lambda>(k', r). k' = k \<and> (homicides r \<noteq> None \<and> (\<exists>p. population r = Some p \<and> 0 < p))) rows"
    unfolding g_def get_group_pairs df_health_clean_eq filter_filter
    by (rule filter_cong) auto
  then have "map snd g = filter (\<lambda>r. astype_int (take 2 (FIPS r)) = Inr k
                \<and> (homicides r \<noteq> None \<and> (\<exists>p. population r = Some p \<and> 0 < p))) (map snd rows)"
    using keyed_filter [OF keys] by simp
  also have "\<dots> = filter (\<lambda>r. length (FIPS r) = 5 \<and> list_all isnumeric_char (FIPS r)
                       \<and> astype_int (take 2 (FIPS r)) = Inr k
                       \<and> homicides r \<noteq> None \<and> (\<exists>p. population r = Some p \<and> 0 < p))
             df_health"
    unfolding snd fips_filter_eq filter_filter
    by (rule filter_cong) auto
  finally show ?thesis by (simp add: g_def)
qed

lemma finite_model_agrees:
  assumes h: "homicide df_health = Inr hom"
    and bh: "sum_list (map (\<lambda>r. case homicides r of Some a \<Rightarrow> \<bar>a\<bar> | None \<Rightarrow> 0) df_health)
             \<le> max_f64"
    and bp: "sum_list (map (\<lambda>r. case population r of Some a \<Rightarrow> \<bar>a\<bar> | None \<Rightarrow> 0) df_health)
             \<le> max_f64"
    and bq: "list_all (\<lambda>(k, v). case v of None \<Rightarrow> True | Some q \<Rightarrow> \<bar>q\<bar> \<le> max_f64) hom"
  shows "homicide64 (map row64 df_health) = Inr (map (\<lambda>(k, v). (k, val64 v)) hom)"
proof -
  from h obtain rows where rows: "add_statefip (fips_filter df_health) = Inr rows"
    and hom: "hom = state_homicide (df_health_clean rows)"
    by (auto simp: homicide_def split: sum.splits)
  define c where "c = df_health_clean rows"
  have row: "fmul (fdiv64 (col_sum64 (map (homicides \<circ> snd) (map (apsnd row64) g)))
                          (col_sum64 (map (population \<circ> snd) (map (apsnd row64) g))))
                 (Finite 100000)
           = val64 (map_option (\<lambda>q. q * 100000)
                      (fdiv (col_sum (map (homicides \<circ> snd) g)) (col_sum (map (population \<circ> snd) g))))"
    if k: "k \<in> set (group_keys (Some \<circ> fst) c)" and g: "g = get_group (Some \<circ> fst) c k" for k g
  proof -
    define S where "S = map snd g"
    have S: "S = filter (\<lambda>r. length (FIPS r) = 5 \<and> list_all isnumeric_char (FIPS r)
                       \<and> astype_int (take 2 (FIPS r)) = Inr k
                       \<and> homicides r \<noteq> None \<and> (\<exists>p. population r = Some p \<and> 0 < p))
             df_health"
      unfolding S_def g c_def by (rule group_rows [OF rows])
    have kv: "(k, map_option (\<lambda>q. q * 100000)
                      (fdiv (col_sum (map (homicides \<circ> snd) g)) (col_sum (map (population \<circ> snd) g))))
              \<in> set hom"
      using k by (auto simp: hom state_homicide_def Let_def g c_def)
    have "sum_list (map (\<lambda>r. case homicides r of Some a \<Rightarrow> \<bar>a\<bar> | None \<Rightarrow> 0) S)
          \<le> sum_list (map (\<lambda>r. case homicides r of Some a \<Rightarrow> \<bar>a\<bar> | None \<Rightarrow> 0) df_health)"
      unfolding S by (rule sum_list_filter_le) (auto split: option.splits)
    with bh have "sum_list (map (\<lambda>v. case v of Some a \<Rightarrow> \<bar>a\<bar> | None \<Rightarrow> 0) (map homicides S))
          \<le> max_f64"
      by (simp add: comp_def)
    from col_sum64_val64 [OF this]
    have H: "col_sum64 (map (homicides \<circ> snd) (map (apsnd row64) g))
             = Finite (col_sum (map (homicides \<circ> snd) g))"
      by (simp add: S_def comp_def row64_def)
    have "sum_list (map (\<lambda>r. case population r of Some a \<Rightarrow> \<bar>a\<bar> | None \<Rightarrow> 0) S)
          \<le> sum_list (map (\<lambda>r. case population r of Some a \<Rightarrow> \<bar>a\<bar> | None \<Rightarrow> 0) df_health)"
      unfolding S by (rule sum_list_filter_le) (auto split: option.splits)
    with bp have "sum_list (map (\<lambda>v. case v of Some a \<Rightarrow> \<bar>a\<bar> | None \<Rightarrow> 0) (map population S))
          \<le> max_f64"
      by (simp add: comp_def)
    from col_sum64_val64 [OF this]
    have P: "col_sum64 (map (population \<circ> snd) (map (apsnd row64) g))
             = Finite (col_sum (map (population \<circ> snd) g))"
      by (simp add: S_def comp_def row64_def)
    from homicide_row(2) [OF h kv, folded S]
    have pos: "0 < col_sum (map (population \<circ> snd) g)"
      by (simp add: S_def col_sum_map_filter map_filter_snd)
    define hs where "hs = col_sum (map (homicides \<circ> snd) g)"
    define ps where "ps = col_sum (map (population \<circ> snd) g)"
    from kv bq pos have q: "\<bar>hs / ps * 100000\<bar> \<le> max_f64"
      by (auto simp: list_all_iff fdiv_def hs_def ps_def)
    have "\<bar>hs / ps * 100000\<bar> = \<bar>hs / ps\<bar> * 100000"
      by (simp only: abs_mult abs_numeral)
    moreover have "\<bar>hs / ps\<bar> * 1 \<le> \<bar>hs / ps\<bar> * 100000"
      by (intro mult_left_mono) simp_all
    ultimately have "\<bar>hs / ps\<bar> \<le> \<bar>hs / ps * 100000\<bar>"
      by simp
    from this q have "\<bar>hs / ps\<bar> \<le> max_f64" by (rule order_trans)
    with q pos show ?thesis
      unfolding H P hs_def [symmetric] ps_def [symmetric]
      by (simp add: fdiv_def f64_of_Finite val64_def)
  qed
  have "state_homicide64 (map (apsnd row64) c) = map (\<lambda>(k, v). (k, val64 v)) (state_homicide c)"
    unfolding state_homicide64_def state_homicide_def group_keys_row64 get_group_row64 map_map
    by (rule map_cong) (use row in \<open>auto simp: Let_def\<close>)
  with rows show ?thesis
    by (simp add: homicide64_def fips_filter_row64 add_statefip_row64 clean_row64 hom c_def)
qed

section \<open>Properties of the join and of the summary table\<close>

lemma edu_ge_total: "edu_ge a b \<or> edu_ge b a"
  by (auto simp: edu_ge_def split: option.splits)

lemma edu_ge_trans: "edu_ge a b \<Longrightarrow> edu_ge b c \<Longrightarrow> edu_ge a c"
  by (auto simp: edu_ge_def split: option.splits)

lemma mset_insert_keep: "mset (insert_keep r xs) = add_mset r (mset xs)"
  by (induction xs) auto

lemma sorted_insert_keep:
  "sorted_wrt (\<lambda>a b. edu_ge (education a) (education b)) xs \<Longrightarrow>
   sorted_wrt (\<lambda>a b. edu_ge (education a) (education b)) (insert_keep r xs)"
proof (induction xs)
  case Nil
  then show ?case by simp
next
  case (Cons x xs)
  show ?case
  proof (cases "edu_ge (education r) (education x)")
    case True
    with Cons.prems show ?thesis
      by (auto intro: edu_ge_trans)
  next
    case False
    then have xr: "edu_ge (education x) (education r)"
      using edu_ge_total by blast
    have "set (insert_keep r xs) = insert r (set xs)"
      using mset_insert_keep [of r xs] by (metis set_mset_add_mset_insert set_mset_mset)
    with False xr Cons show ?thesis
      by auto
  qed
qed

text \<open>The sample sorter keeps the promise of \<open>sort_values\<close>.\<close>

lemma sort_keep_ok: "sort_values_ok sort_keep"
proof -
  have "mset (sort_keep rows) = mset rows
        \<and> sorted_wrt (\<lambda>a b. edu_ge (education a) (education b)) (sort_keep rows)" for rows
    unfolding sort_keep_def
    by (induction rows) (simp_all add: mset_insert_keep sorted_insert_keep)
  then show ?thesis
    by (simp add: sort_values_ok_def sorted_wrt_map)
qed

text \<open>A run whose health side raises no error ends with a table.\<close>

lemma pipeline_result:
  assumes "sort_values_ok srt" and "homicide df_health = Inr hom"
  shows "\<exists>out. pipeline srt df_ipums df_health = Inr out
           \<and> csv_header out = display_cols
           \<and> mset (csv_rows out) = mset (select_display (combined (ipums_summary df_ipums) hom))
           \<and> sorted_wrt edu_ge (map education (csv_rows out))
           \<and> printed out = map round_row (csv_rows out)"
  using assms by (simp add: pipeline_def sort_values_ok_def Let_def)

lemma filter_key_map_of:
  "distinct (map fst right) \<Longrightarrow>
   filter (\<lambda>(k', b). k' = k) right = (case map_of right k of None \<Rightarrow> [] | Some b \<Rightarrow> [(k, b)])"
proof (induction right)
  case Nil
  then show ?case by simp
next
  case (Cons x right)
  obtain k' b where x: "x = (k', b)" by (cases x)
  show ?case
  proof (cases "k' = k")
    case True
    with Cons.prems x have "k \<notin> fst ` set right" by simp
    then have "filter (\<lambda>(k', b). k' = k) right = []"
      by (force simp: filter_empty_conv)
    with True x show ?thesis by simp
  next
    case False
    with Cons x show ?thesis by simp
  qed
qed

lemma merge_left_rows:
  assumes "distinct (map fst right)"
  shows "merge_left left right
         = map (\<lambda>(k, a). (k, a, case map_of right k of None \<Rightarrow> None | Some v \<Rightarrow> v)) left"
proof -
  have h: "(let ms = filter (\<lambda>(k', b). k' = k) right
         in if ms = [] then [(k, a, None)] else map (\<lambda>(k', b). (k, a, b)) ms)
        = [(k, a, case map_of right k of None \<Rightarrow> None | Some v \<Rightarrow> v)]" for k and a :: 'c
    by (simp add: filter_key_map_of [OF assms] Let_def split: option.splits)
  have "merge_left left right
     = concat (map (\<lambda>(k, a). [(k, a, case map_of right k of None \<Rightarrow> None | Some v \<Rightarrow> v)]) left)"
    by (simp add: merge_left_def h)
  also have "\<dots> = map (\<lambda>(k, a). (k, a, case map_of right k of None \<Rightarrow> None | Some v \<Rightarrow> v)) left"
    by (induction left) auto
  finally show ?thesis .
qed

lemma merge_inner_rows:
  assumes "distinct (map fst right)"
  shows "merge_inner left right
         = concat (map (\<lambda>(k, a). case map_of right k of None \<Rightarrow> [] | Some b \<Rightarrow> [(k, a, b)]) left)"
proof -
  have h: "map (\<lambda>(k', b). (k, a, b)) (filter (\<lambda>(k', b). k' = k) right)
        = (case map_of right k of None \<Rightarrow> [] | Some b \<Rightarrow> [(k, a, b)])" for k and a :: 'c
    by (simp add: filter_key_map_of [OF assms] split: option.splits)
  show ?thesis
    by (simp add: merge_inner_def h)
qed

lemma floor_rat_numeral: "\<lfloor>(numeral a :: rat) / numeral b\<rfloor> = numeral a div numeral b"
  using floor_divide_of_int_eq [of "numeral a" "numeral b", where ?'a = rat] by simp

lemmas format_simps = select_display_def state_names_def state_names_table_def
  display_cols_def education_def edu_ge_def round_row_def round4_def rint_def
  floor_rat_numeral

lemma homicide_empty: "homicide [] = Inr []"
  by (simp add: health_simps)

lemma summary_123:
  "ipums_summary microdata_123 = [(1, Some 6, Some 1), (2, Some 7, Some 0), (3, Some 8, Some 1)]"
  by (simp add: eval_simps microdata_123_def)

lemma homicide_9_10_11:
  "homicide health_9_10_11 = Inr [(9, Some 2), (10, Some 3), (11, Some 4)]"
  by (simp add: health_simps health_9_10_11_def str_nat.simps digit_char_def)

lemma merge_disjoint:
  assumes "fst ` set left \<inter> fst ` set right = {}"
  shows "merge_inner left right = []"
    and "merge_left left right = map (\<lambda>(k, a). (k, a, None)) left"
proof -
  have none: "filter (\<lambda>(k', b). k' = k) right = []" if "(k, a) \<in> set left" for k a
    using that assms by (force simp: filter_empty_conv)
  have g: "map (\<lambda>(k, a). map (\<lambda>(k', b). (k, a, b)) (filter (\<lambda>(k', b). k' = k) right)) left
        = map (\<lambda>x. []) left"
    by (rule map_cong) (auto simp: none)
  show "merge_inner left right = []"
    unfolding merge_inner_def g by simp
  have h: "map (\<lambda>(k, a). (let ms = filter (\<lambda>(k', b). k' = k) right
                       in if ms = [] then [(k, a, None)] else map (\<lambda>(k', b). (k, a, b)) ms)) left
        = map (\<lambda>(k, a). [(k, a, None)]) left"
    by (rule map_cong) (auto simp: none)
  have "merge_left left right = concat (map (\<lambda>(k, a). [(k, a, None)]) left)"
    unfolding merge_left_def h ..
  also have "\<dots> = map (\<lambda>(k, a). (k, a, None)) left"
    by (induction left) auto
  finally show "merge_left left right = map (\<lambda>(k, a). (k, a, None)) left" .
qed

lemma combined_123:
  "combined (ipums_summary microdata_123) [(9, Some 2), (10, Some 3), (11, Some 4)]
   = [(1, (Some 6, Some 1), None), (2, (Some 7, Some 0), None), (3, (Some 8, Some 1), None)]"
  by (simp add: summary_123 join_simps)

text \<open>Claim C2. The joined table is the inner join on the state code unless every row
  of the inner join lacks the homicide value (as when it has no row), and the left join
  otherwise. The left join has one row for every row of the microdata summary, with the
  summary's values and the homicide value of the health table where that state has one,
  NaN where it has none; when the two tables share no state code, every row of the
  summary is kept with a NaN homicide value. For microdata of the states 1, 2, 3 and
  health data of the states 9, 10, 11 the written table has three rows, each with a
  NaN homicide value.\<close>

theorem C2_left_join_fallback:
  "combined summary hom
     = (if list_all (\<lambda>(k, ei, h). h = None) (merge_inner summary hom)
        then merge_left summary hom else merge_inner summary hom)
   \<and> (distinct (map fst hom) \<longrightarrow>
        merge_left summary hom
          = map (\<lambda>(k, ei). (k, ei, case map_of hom k of None \<Rightarrow> None | Some v \<Rightarrow> v)) summary)
   \<and> (fst ` set summary \<inter> fst ` set hom = {} \<longrightarrow>
        combined summary hom = map (\<lambda>(k, ei). (k, ei, None)) summary)
   \<and> map fst (ipums_summary microdata_123) = [1, 2, 3]
   \<and> homicide health_9_10_11 = Inr [(9, Some 2), (10, Some 3), (11, Some 4)]
   \<and> combined (ipums_summary microdata_123) [(9, Some 2), (10, Some 3), (11, Some 4)]
       = [(1, (Some 6, Some 1), None), (2, (Some 7, Some 0), None), (3, (Some 8, Some 1), None)]
   \<and> (sort_values_ok srt \<longrightarrow>
        (\<exists>out. pipeline srt microdata_123 health_9_10_11 = Inr out
           \<and> length (csv_rows out) = 3
           \<and> list_all (\<lambda>(s, e, i, h). h = None) (csv_rows out)))"
proof -
  have a: "combined summary hom
     = (if list_all (\<lambda>(k, ei, h). h = None) (merge_inner summary hom)
        then merge_left summary hom else merge_inner summary hom)"
    by (simp add: combined_def Let_def)
  have b: "merge_left summary hom
          = map (\<lambda>(k, ei). (k, ei, case map_of hom k of None \<Rightarrow> None | Some v \<Rightarrow> v)) summary"
    if "distinct (map fst hom)"
    using that by (rule merge_left_rows)
  have c: "combined summary hom = map (\<lambda>(k, ei). (k, ei, None)) summary"
    if "fst ` set summary \<inter> fst ` set hom = {}"
    using merge_disjoint [OF that] by (simp add: combined_def)
  have d: "map fst (ipums_summary microdata_123) = [1, 2, 3]"
    by (simp add: summary_123)
  have e: "\<exists>out. pipeline srt microdata_123 health_9_10_11 = Inr out
           \<and> length (csv_rows out) = 3
           \<and> list_all (\<lambda>(s, e, i, h). h = None) (csv_rows out)"
    if ok: "sort_values_ok srt"
  proof -
    from pipeline_result [OF ok homicide_9_10_11, of microdata_123]
    obtain out where out: "pipeline srt microdata_123 health_9_10_11 = Inr out"
      and m: "mset (csv_rows out)
              = mset (select_display (combined (ipums_summary microdata_123)
                         [(9, Some 2), (10, Some 3), (11, Some 4)]))"
      by blast
    from m have "length (csv_rows out) = 3"
      using mset_eq_length [OF m] by (simp add: combined_123 select_display_def)
    moreover from m have "set (csv_rows out)
              = set (select_display (combined (ipums_summary microdata_123)
                         [(9, Some 2), (10, Some 3), (11, Some 4)]))"
      by (rule mset_eq_setD)
    then have "list_all (\<lambda>(s, e, i, h). h = None) (csv_rows out)"
      by (simp add: list_all_iff combined_123 select_display_def)
    ultimately show ?thesis using out by blast
  qed
  from a b c d e homicide_9_10_11 combined_123 show ?thesis by blast
qed

text \<open>The run on the two sample tables.\<close>

theorem C2_witness:
  "sort_values_ok sort_keep
   \<and> distinct (map fst [(9 :: int, Some (2 :: rat)), (10, Some 3), (11, Some 4)])
   \<and> fst ` set (ipums_summary microdata_123)
        \<inter> fst ` set [(9 :: int, Some (2 :: rat)), (10, Some 3), (11, Some 4)] = {}
   \<and> pipeline sort_keep microdata_123 health_9_10_11
       = Inr \<lparr>printed = [(None, Some 8, Some 1, None), (Some ''Alaska'', Some 7, Some 0, None),
                          (Some ''Alabama'', Some 6, Some 1, None)],
               csv_header = [''state'', ''education'', ''insured_rate'', ''homicides''],
               csv_rows = [(None, Some 8, Some 1, None), (Some ''Alaska'', Some 7, Some 0, None),
                           (Some ''Alabama'', Some 6, Some 1, None)]\<rparr>"
  using C2_left_join_fallback [of "ipums_summary microdata_123"
      "[(9, Some 2), (10, Some 3), (11, Some 4)]" sort_keep] sort_keep_ok
  by (simp add: summary_123 pipeline_def homicide_9_10_11 join_simps format_simps sort_keep_def)


lemma distinct_state_names: "distinct (map fst state_names_table)"
  by (simp add: state_names_table_def)

lemma summary_keys: "map fst (ipums_summary df) = group_keys STATEFIP (gq_filter df)"
  by (simp add: ipums_summary_rows comp_def)

lemma merge_inner_keys:
  assumes "distinct (map fst right)"
  shows "map fst (merge_inner left right) = filter (\<lambda>k. map_of right k \<noteq> None) (map fst left)"
  unfolding merge_inner_rows [OF assms]
  by (induction left) (auto split: option.splits)

lemma merge_left_keys:
  assumes "distinct (map fst right)"
  shows "map fst (merge_left left right) = map fst left"
  unfolding merge_left_rows [OF assms]
  by (induction left) auto

lemma combined_keys_distinct:
  assumes "distinct (map fst summary)" and "distinct (map fst hom)"
  shows "distinct (map fst (combined summary hom))"
  using assms by (simp add: combined_def Let_def merge_inner_keys merge_left_keys)

text \<open>Claim C8. The written table holds every row of the joined table, with the state
  code replaced by its entry in the table of 51 names, and by NaN when the code has no
  entry; no row is dropped and the run does not fail on it.\<close>

theorem C8_unresolved_state_names:
  "(sort_values_ok srt \<and> homicide df_health = Inr hom \<longrightarrow>
      (\<exists>out. pipeline srt df_ipums df_health = Inr out
         \<and> mset (csv_rows out)
             = mset (map (\<lambda>(k, (e, i), h). (state_names k, e, i, h))
                       (combined (ipums_summary df_ipums) hom))))
   \<and> (k \<notin> fst ` set state_names_table \<longrightarrow> state_names k = None)
   \<and> ((k, name) \<in> set state_names_table \<longrightarrow> state_names k = Some name)
   \<and> length state_names_table = 51"
proof -
  have a: "\<exists>out. pipeline srt df_ipums df_health = Inr out
         \<and> mset (csv_rows out)
             = mset (map (\<lambda>(k, (e, i), h). (state_names k, e, i, h))
                       (combined (ipums_summary df_ipums) hom))"
    if "sort_values_ok srt" and "homicide df_health = Inr hom"
    using pipeline_result [OF that, of df_ipums] by (auto simp: select_display_def)
  have b: "state_names k = None" if "k \<notin> fst ` set state_names_table"
    using that by (simp add: state_names_def map_of_eq_None_iff)
  have c: "state_names k = Some name" if "(k, name) \<in> set state_names_table"
    using that distinct_state_names by (simp add: state_names_def)
  have d: "length state_names_table = 51"
    by (simp add: state_names_table_def)
  from a b c d show ?thesis by blast
qed

text \<open>State code 3 has no name; its row is written with a NaN name.\<close>

theorem C8_witness:
  "sort_values_ok sort_keep
   \<and> homicide health_9_10_11 = Inr [(9, Some 2), (10, Some 3), (11, Some 4)]
   \<and> 3 \<notin> fst ` set state_names_table
   \<and> pipeline sort_keep microdata_123 health_9_10_11
       = Inr \<lparr>printed = [(None, Some 8, Some 1, None), (Some ''Alaska'', Some 7, Some 0, None),
                          (Some ''Alabama'', Some 6, Some 1, None)],
               csv_header = [''state'', ''education'', ''insured_rate'', ''homicides''],
               csv_rows = [(None, Some 8, Some 1, None), (Some ''Alaska'', Some 7, Some 0, None),
                           (Some ''Alabama'', Some 6, Some 1, None)]\<rparr>"
  using C8_unresolved_state_names [of sort_keep health_9_10_11
      "[(9, Some 2), (10, Some 3), (11, Some 4)]" microdata_123 3] sort_keep_ok
  by (simp add: summary_123 pipeline_def homicide_9_10_11 join_simps format_simps sort_keep_def)


lemma rint_close: "\<bar>of_int (rint y) - y\<bar> \<le> 1 / 2"
proof -
  define d where "d = y - of_int \<lfloor>y\<rfloor>"
  have d: "0 \<le> d" "d < 1"
    unfolding d_def by linarith+
  have y: "of_int \<lfloor>y\<rfloor> - y = - d"
    by (simp add: d_def)
  consider "d < 1 / 2" | "1 / 2 < d" | "d = 1 / 2"
    by linarith
  then show ?thesis
  proof cases
    case 1
    then have "rint y = \<lfloor>y\<rfloor>"
      by (simp add: rint_def Let_def d_def)
    with 1 d y show ?thesis by simp
  next
    case 2
    then have "rint y = \<lfloor>y\<rfloor> + 1"
      by (simp add: rint_def Let_def d_def)
    then have "of_int (rint y) - y = 1 - d"
      by (simp add: d_def)
    with 2 d show ?thesis by simp
  next
    case 3
    then have "rint y = \<lfloor>y\<rfloor> \<or> rint y = \<lfloor>y\<rfloor> + 1"
      by (simp add: rint_def Let_def d_def)
    then have "of_int (rint y) - y = - d \<or> of_int (rint y) - y = 1 - d"
      by (auto simp: d_def)
    with 3 show ?thesis by auto
  qed
qed

lemma round4_close: "\<bar>round4 x - x\<bar> \<le> 1 / 20000"
proof -
  have "round4 x - x = (of_int (rint (x * 10000)) - x * 10000) / 10000"
    by (simp add: round4_def field_simps)
  then have "\<bar>round4 x - x\<bar> = \<bar>of_int (rint (x * 10000)) - x * 10000\<bar> / 10000"
    by (simp only: abs_divide)
  also have "\<dots> \<le> (1 / 2) / 10000"
    using rint_close [of "x * 10000"] by (simp only: divide_right_mono) 
  finally show ?thesis by simp
qed

text \<open>Three records of one state with education codes 1, 0, 0: the printed table
  shows 0.3333, the written file holds the unrounded mean 1/3. (The table has one row,
  which every sorter leaves as it is.)\<close>

theorem C7_counterexample:
  "pipeline sort_keep
     [person_example 1 1 2 1 100, person_example 1 2 2 0 5, person_example 1 5 1 0 1] []
   = Inr \<lparr>printed = [(Some ''Alabama'', Some (3333 / 10000), Some (6667 / 10000), None)],
           csv_header = [''state'', ''education'', ''insured_rate'', ''homicides''],
           csv_rows = [(Some ''Alabama'', Some (1 / 3), Some (2 / 3), None)]\<rparr>
   \<and> round4 (1 / 3) \<noteq> 1 / 3"
  by (simp add: pipeline_def homicide_empty eval_simps join_simps format_simps sort_keep_def)

text \<open>Claim C7, amended. The written table has the header \<open>state\<close>, \<open>education\<close>,
  \<open>insured_rate\<close>, \<open>homicides\<close> and no index column, one row for every row of the
  joined table (which has one row per state), sorted by \<open>education\<close> descending, with
  the values as they were aggregated. Rounding to 4 decimal places is applied to the
  printed table only: it is the written table with every number replaced by a multiple
  of 1/10000 at distance at most 1/20000.\<close>

theorem C7_persisted_table:
  "(sort_values_ok srt \<and> homicide df_health = Inr hom \<longrightarrow>
      (\<exists>out. pipeline srt df_ipums df_health = Inr out
         \<and> csv_header out = [''state'', ''education'', ''insured_rate'', ''homicides'']
         \<and> mset (csv_rows out) = mset (select_display (combined (ipums_summary df_ipums) hom))
         \<and> distinct (map fst (combined (ipums_summary df_ipums) hom))
         \<and> sorted_wrt edu_ge (map education (csv_rows out))
         \<and> printed out = map round_row (csv_rows out)))
   \<and> round_row (s, e, i, h) = (s, map_option round4 e, map_option round4 i, map_option round4 h)
   \<and> round4 x = of_int (rint (x * 10000)) / 10000
   \<and> \<bar>round4 x - x\<bar> \<le> 1 / 20000"
proof -
  have a: "\<exists>out. pipeline srt df_ipums df_health = Inr out
         \<and> csv_header out = [''state'', ''education'', ''insured_rate'', ''homicides'']
         \<and> mset (csv_rows out) = mset (select_display (combined (ipums_summary df_ipums) hom))
         \<and> distinct (map fst (combined (ipums_summary df_ipums) hom))
         \<and> sorted_wrt edu_ge (map education (csv_rows out))
         \<and> printed out = map round_row (csv_rows out)"
    if ok: "sort_values_ok srt" and h: "homicide df_health = Inr hom"
  proof -
    have "distinct (map fst (combined (ipums_summary df_ipums) hom))"
      by (rule combined_keys_distinct)
         (simp_all add: summary_keys distinct_group_keys homicide_keys(1) [OF h])
    with pipeline_result [OF ok h, of df_ipums] show ?thesis
      by (auto simp: display_cols_def)
  qed
  have b: "round_row (s, e, i, h) = (s, map_option round4 e, map_option round4 i, map_option round4 h)"
    by (simp add: round_row_def)
  have c: "round4 x = of_int (rint (x * 10000)) / 10000"
    by (simp add: round4_def)
  from a b c round4_close [of x] show ?thesis by blast
qed

text \<open>The run on the two sample tables is sorted by education.\<close>

theorem C7_witness:
  "sort_values_ok sort_keep
   \<and> homicide health_9_10_11 = Inr [(9, Some 2), (10, Some 3), (11, Some 4)]
   \<and> csv_rows (projr (pipeline sort_keep microdata_123 health_9_10_11))
       = [(None, Some 8, Some 1, None), (Some ''Alaska'', Some 7, Some 0, None),
          (Some ''Alabama'', Some 6, Some 1, None)]
   \<and> sorted_wrt edu_ge [Some 8, Some 7, Some 6]"
  using C7_persisted_table [of sort_keep health_9_10_11
      "[(9, Some 2), (10, Some 3), (11, Some 4)]" microdata_123] sort_keep_ok
  by (simp add: summary_123 pipeline_def homicide_9_10_11 join_simps format_simps sort_keep_def)

end
